theory Spec2Isabelle
  imports Complex_Main
begin

section \<open>JavaScript strings\<close>

text \<open>
  A JavaScript string is modelled as a \<open>string\<close>: a list of characters, each read as one
  code unit below 256. The inputs of the action are strings (\<open>core.getInput\<close> returns
  one for every name), and a string is falsy exactly when it is empty.
\<close>

text \<open>
  White space and line terminators, as \<open>String.prototype.trim\<close> and \<open>parseInt\<close> strip
  them: TAB, LF, VT, FF, CR, SPACE and NBSP are the ones below 256.
\<close>

definition is_ws :: "char \<Rightarrow> bool" where
  "is_ws c = ((of_char c :: nat) \<in> {9, 10, 11, 12, 13, 32, 160})"

text \<open>\<open>s.trim()\<close>\<close>

definition trim :: "string \<Rightarrow> string" where
  "trim s = rev (dropWhile is_ws (rev (dropWhile is_ws s)))"

text \<open>
  \<open>s.split(sep)\<close> for a separator of one character: the pieces between the separators,
  so one piece more than there are separators (the empty string gives one empty piece).
\<close>

fun split :: "char \<Rightarrow> string \<Rightarrow> string list" where
  "split sep [] = [[]]"
| "split sep (c # cs) =
     (if c = sep then [] # split sep cs
      else (case split sep cs of
              [] \<Rightarrow> [[c]]
            | p # ps \<Rightarrow> (c # p) # ps))"

text \<open>\<open>xs.join(sep)\<close>\<close>

fun join :: "string \<Rightarrow> string list \<Rightarrow> string" where
  "join sep [] = []"
| "join sep [x] = x"
| "join sep (x # y # ys) = x @ sep @ join sep (y # ys)"

text \<open>\<open>s.startsWith('/')\<close> and \<open>s.endsWith('/')\<close>\<close>

definition startsWith_slash :: "string \<Rightarrow> bool" where
  "startsWith_slash s = (case s of [] \<Rightarrow> False | c # _ \<Rightarrow> c = CHR ''/'')"

definition endsWith_slash :: "string \<Rightarrow> bool" where
  "endsWith_slash s = (case rev s of [] \<Rightarrow> False | c # _ \<Rightarrow> c = CHR ''/'')"

section \<open>Tags (main.js, lines 117 to 128 and 139 to 141)\<close>

record tag =
  tagKey :: string
  tagValue :: string

text \<open>
  \<open>const [Key, Value] = pair.split('=')\<close> binds the first two pieces of the split; a
  missing second piece is \<open>undefined\<close>, which \<open>(Value || '')\<close> turns into the empty
  string. Pieces after the second are not bound to anything.
\<close>

definition parse_pair :: "string \<Rightarrow> tag" where
  "parse_pair pair =
     (case split (CHR ''='') pair of
        [] \<Rightarrow> \<lparr>tagKey = [], tagValue = []\<rparr>
      | [k] \<Rightarrow> \<lparr>tagKey = trim k, tagValue = trim []\<rparr>
      | k # v # _ \<Rightarrow> \<lparr>tagKey = trim k, tagValue = trim v\<rparr>)"

text \<open>
  The array \<open>tagging\<close>: \<open>None\<close> is \<open>undefined\<close> (the input is empty, so the \<open>if\<close> is
  skipped).
\<close>

definition tagging :: "string \<Rightarrow> tag list option" where
  "tagging ts =
     (if ts \<noteq> []
      then Some (map parse_pair (filter (\<lambda>pair. pair \<noteq> []) (map trim (split (CHR '','') ts))))
      else None)"

text \<open>\<open>params.Tagging\<close>: the pairs as \<open>Key=Value\<close>, joined by \<open>&\<close>.\<close>

definition Tagging_of :: "tag list option \<Rightarrow> string option" where
  "Tagging_of tg =
     (case tg of
        None \<Rightarrow> None
      | Some ts \<Rightarrow> Some (join ''&'' (map (\<lambda>t. tagKey t @ ''='' @ tagValue t) ts)))"

section \<open>Numeric inputs (main.js, lines 74 to 82)\<close>

text \<open>
  Errors. \<open>Error\<close> is what \<open>run\<close> throws itself (\<open>throw new Error(message)\<close>); the
  others come from the file system, the S3 client and the QR library.
\<close>

datatype error = Error string | FsError string | S3Error string | QrError string

fun message :: "error \<Rightarrow> string" where
  "message (Error m) = m"
| "message (FsError m) = m"
| "message (S3Error m) = m"
| "message (QrError m) = m"

text \<open>The value of a digit or letter in the radices up to 36.\<close>

definition digit_val :: "char \<Rightarrow> nat option" where
  "digit_val c =
     (let n = (of_char c :: nat)
      in if 48 \<le> n \<and> n \<le> 57 then Some (n - 48)
         else if 97 \<le> n \<and> n \<le> 122 then Some (n - 87)
         else if 65 \<le> n \<and> n \<le> 90 then Some (n - 55)
         else None)"

definition is_digit :: "nat \<Rightarrow> char \<Rightarrow> bool" where
  "is_digit R c = (case digit_val c of None \<Rightarrow> False | Some d \<Rightarrow> d < R)"

definition digits_value :: "nat \<Rightarrow> string \<Rightarrow> int" where
  "digits_value R Z =
     foldl (\<lambda>acc c. acc * int R + (case digit_val c of None \<Rightarrow> 0 | Some d \<Rightarrow> int d)) 0 Z"

text \<open>
  \<open>parseInt(s)\<close> with no radix: leading white space is skipped, then a sign, then a
  \<open>0x\<close> or \<open>0X\<close> prefix that selects radix 16, then the longest run of digits is read;
  no digit at all gives \<open>NaN\<close>, here \<open>None\<close>. The result is an \<open>int\<close>: the rounding of
  a very long run of digits to a double does not change how it compares with the bounds
  below.
\<close>

definition parseInt :: "string \<Rightarrow> int option" where
  "parseInt str =
     (let S = dropWhile is_ws str;
          sign = (if S \<noteq> [] \<and> hd S = CHR ''-'' then - 1 else 1);
          S1 = (if S \<noteq> [] \<and> (hd S = CHR ''+'' \<or> hd S = CHR ''-'') then tl S else S);
          R = (if take 2 S1 = ''0x'' \<or> take 2 S1 = ''0X'' then 16 else 10);
          S2 = (if take 2 S1 = ''0x'' \<or> take 2 S1 = ''0X'' then drop 2 S1 else S1);
          Z = takeWhile (is_digit R) S2
      in if Z = [] then None else Some (sign * digits_value R Z))"

definition expire_message :: string where
  \<open>expire_message = ''"expire" input should be a number between 0 and 604800.''\<close>

definition qrWidth_message :: string where
  \<open>qrWidth_message = ''"qr-width" input should be a number between 100 and 1000.''\<close>

text \<open>\<open>isNaN(expire) | expire < 0 | 604800 < expire\<close>\<close>

definition check_expire :: "string \<Rightarrow> error + int" where
  "check_expire s =
     (case parseInt s of
        None \<Rightarrow> Inl (Error expire_message)
      | Some e \<Rightarrow> if e < 0 \<or> 604800 < e then Inl (Error expire_message) else Inr e)"

text \<open>\<open>!qrWidth | qrWidth < 100 | 1000 < qrWidth\<close>: \<open>!qrWidth\<close> holds of \<open>NaN\<close> and of 0.\<close>

definition check_qrWidth :: "string \<Rightarrow> error + int" where
  "check_qrWidth s =
     (case parseInt s of
        None \<Rightarrow> Inl (Error qrWidth_message)
      | Some q \<Rightarrow> if q = 0 \<or> q < 100 \<or> 1000 < q then Inl (Error qrWidth_message) else Inr q)"

section \<open>Bucket root and destination directory (main.js, lines 84 to 106 and 235 to 242)\<close>

definition bucketRoot_of :: "string \<Rightarrow> string" where
  "bucketRoot_of b =
     (if b \<noteq> []
      then (let b1 = (if startsWith_slash b then drop 1 b else b)
            in if b1 \<noteq> [] \<and> \<not> endsWith_slash b1 then b1 @ ''/'' else b1)
      else ''artifacts/'')"

definition c_alphabet :: string where
  "c_alphabet = ''abcdefghijklmnopqrstuvwxyzABCDEFGHJKLMNOPQRSTUVWXYZ0123456789''"

text \<open>
  \<open>r += c[k]\<close>: the character at index \<open>k\<close>; out of range \<open>c[k]\<close> is \<open>undefined\<close>, and
  adding it to a string appends the word.
\<close>

definition char_at :: "string \<Rightarrow> int \<Rightarrow> string" where
  "char_at c k = (if 0 \<le> k \<and> k < int (length c) then [c ! nat k] else ''undefined'')"

text \<open>
  The loop of \<open>getRandomStr\<close>. \<open>rnd i\<close> is what the call of \<open>Math.random()\<close> in round
  \<open>i\<close> returns. The product with the length of the alphabet is taken in the reals; in
  doubles the greatest value below 1 gives a product that still rounds below 61, so the
  index stays in the same range.
\<close>

function getRandomStr_loop :: "(nat \<Rightarrow> real) \<Rightarrow> nat \<Rightarrow> nat \<Rightarrow> string \<Rightarrow> string" where
  "getRandomStr_loop rnd len i r =
     (if i < len
      then getRandomStr_loop rnd len (i + 1)
             (r @ char_at c_alphabet \<lfloor>rnd i * real (length c_alphabet)\<rfloor>)
      else r)"
  by pat_completeness auto
termination
  by (relation "measure (\<lambda>(rnd, len, i, r). len - i)") auto

definition getRandomStr :: "(nat \<Rightarrow> real) \<Rightarrow> nat \<Rightarrow> string" where
  "getRandomStr rnd len = getRandomStr_loop rnd len 0 []"

definition destinationDir_of :: "(nat \<Rightarrow> real) \<Rightarrow> string \<Rightarrow> string" where
  "destinationDir_of rnd d =
     (if d \<noteq> []
      then (let d1 = (if startsWith_slash d then drop 1 d else d)
            in if d1 \<noteq> [] \<and> \<not> endsWith_slash d1 then d1 @ ''/'' else d1)
      else getRandomStr rnd 32 @ ''/'')"

text \<open>
  \<open>path.basename(p)\<close> of Node's POSIX \<open>path\<close>: trailing slashes are dropped, and what
  follows the last remaining slash is the name.
\<close>

definition basename :: "string \<Rightarrow> string" where
  "basename p =
     rev (takeWhile (\<lambda>c. c \<noteq> CHR ''/'') (dropWhile (\<lambda>c. c = CHR ''/'') (rev p)))"

section \<open>Checksums (main.js, lines 143 to 176)\<close>

type_synonym bytes = "nat list"

text \<open>The parameters of a \<open>putObject\<close> call; \<open>None\<close> is a field that is not set.\<close>

record params =
  Bucket :: string
  Key :: string
  ContentType :: string
  ContentDisposition :: "string option"
  Body :: bytes
  ACL :: string
  Tagging :: "string option"
  ChecksumAlgorithm :: "string option"
  ChecksumCRC32 :: "string option"
  ChecksumCRC32C :: "string option"
  ChecksumCRC64NVME :: "string option"
  ChecksumSHA1 :: "string option"
  ChecksumSHA256 :: "string option"

text \<open>\<open>/^[0-9a-fA-F]+$/.test(s)\<close>\<close>

definition hex_test :: "string \<Rightarrow> bool" where
  "hex_test s = (s \<noteq> [] \<and> list_all (is_digit 16) s)"

text \<open>
  \<open>Buffer.from(s, 'hex')\<close>: one byte for every two hexadecimal digits; decoding stops at
  the first pair that is not two such digits, and a last single digit is dropped.
\<close>

fun Buffer_from_hex :: "string \<Rightarrow> bytes" where
  "Buffer_from_hex (a # b # cs) =
     (case (digit_val a, digit_val b) of
        (Some h, Some l) \<Rightarrow>
          if h < 16 \<and> l < 16 then (16 * h + l) # Buffer_from_hex cs else []
      | _ \<Rightarrow> [])"
| "Buffer_from_hex _ = []"

definition base64_alphabet :: string where
  "base64_alphabet = ''ABCDEFGHIJKLMNOPQRSTUVWXYZabcdefghijklmnopqrstuvwxyz0123456789+/''"

definition b64 :: "nat \<Rightarrow> char" where
  "b64 n = base64_alphabet ! (n mod 64)"

text \<open>\<open>buffer.toString('base64')\<close>: three bytes give four characters, with \<open>=\<close> padding.\<close>

fun toString_base64 :: "bytes \<Rightarrow> string" where
  "toString_base64 (x # y # z # rest) =
     [b64 (x div 4), b64 ((x mod 4) * 16 + y div 16), b64 ((y mod 16) * 4 + z div 64),
      b64 (z mod 64)] @ toString_base64 rest"
| "toString_base64 [x, y] =
     [b64 (x div 4), b64 ((x mod 4) * 16 + y div 16), b64 ((y mod 16) * 4), CHR ''='']"
| "toString_base64 [x] = [b64 (x div 4), b64 ((x mod 4) * 16), CHR ''='', CHR ''='']"
| "toString_base64 [] = []"

definition checksum_algorithms :: "string list" where
  "checksum_algorithms = [''CRC32'', ''CRC32C'', ''CRC64NVME'', ''SHA1'', ''SHA256'']"

record input =
  awsAccessKeyId :: string
  awsSecretAccessKey :: string
  awsRegion :: string
  awsBucket :: string
  filePath :: string
  destinationDir :: string
  bucketRoot :: string
  outputFileUrl :: string
  contentType :: string
  contentDisposition :: string
  outputQrUrl :: string
  qrWidth :: string
  public :: string
  expire :: string
  alternativeDomainPublic :: string
  alternativeDomainPrivate :: string
  tags :: string
  checksumAlgorithm :: string
  checksum :: string

text \<open>\<open>checksumValue\<close> (lines 153 to 157)\<close>

definition checksumValue :: "string \<Rightarrow> string" where
  "checksumValue v = (if hex_test v then toString_base64 (Buffer_from_hex v) else v)"

text \<open>The \<open>switch\<close> (lines 158 to 174); no case matching leaves the parameters as they are.\<close>

definition set_checksum :: "string \<Rightarrow> string \<Rightarrow> params \<Rightarrow> params" where
  "set_checksum alg v ps =
     (if alg = ''CRC32'' then ps\<lparr>ChecksumCRC32 := Some v\<rparr>
      else if alg = ''CRC32C'' then ps\<lparr>ChecksumCRC32C := Some v\<rparr>
      else if alg = ''CRC64NVME'' then ps\<lparr>ChecksumCRC64NVME := Some v\<rparr>
      else if alg = ''SHA1'' then ps\<lparr>ChecksumSHA1 := Some v\<rparr>
      else if alg = ''SHA256'' then ps\<lparr>ChecksumSHA256 := Some v\<rparr>
      else ps)"

definition checksum_handling :: "input \<Rightarrow> params \<Rightarrow> error + params" where
  "checksum_handling inp ps =
     (if checksumAlgorithm inp \<noteq> []
      then (if checksumAlgorithm inp \<notin> set checksum_algorithms
            then Inl (Error (''Unsupported checksum algorithm: '' @ checksumAlgorithm inp))
            else (let ps1 = ps\<lparr>ChecksumAlgorithm := Some (checksumAlgorithm inp)\<rparr>
                  in if checksum inp \<noteq> []
                     then Inr (set_checksum (checksumAlgorithm inp) (checksumValue (checksum inp)) ps1)
                     else Inr ps1))
      else Inr ps)"

section \<open>URLs (main.js, lines 183 to 186, 194 to 196 and 219 to 222)\<close>

text \<open>
  The first occurrence of \<open>pat\<close> in \<open>s\<close>: the text before it and the text after it.
\<close>

fun find_first :: "string \<Rightarrow> string \<Rightarrow> (string \<times> string) option" where
  "find_first pat [] = (if pat = [] then Some ([], []) else None)"
| "find_first pat (c # cs) =
     (if take (length pat) (c # cs) = pat then Some ([], drop (length pat) (c # cs))
      else (case find_first pat cs of
              None \<Rightarrow> None
            | Some (b, a) \<Rightarrow> Some (c # b, a)))"

text \<open>
  The replacement text of \<open>String.prototype.replace\<close> for a pattern that is a string: in
  the template \<open>$$\<close> stands for a dollar sign, \<open>$&\<close> for the matched text, \<open>$`\<close> for the
  text before the match and \<open>$'\<close> for the text after it; any other dollar sign is
  itself.
\<close>

fun GetSubstitution :: "string \<Rightarrow> string \<Rightarrow> string \<Rightarrow> string \<Rightarrow> string" where
  "GetSubstitution matched pre post [] = []"
| "GetSubstitution matched pre post [c] = [c]"
| "GetSubstitution matched pre post (c # d # t) =
     (if c = CHR ''$'' \<and> d = CHR ''$'' then CHR ''$'' # GetSubstitution matched pre post t
      else if c = CHR ''$'' \<and> d = CHR ''&'' then matched @ GetSubstitution matched pre post t
      else if c = CHR ''$'' \<and> d = CHR 0x60 then pre @ GetSubstitution matched pre post t
      else if c = CHR ''$'' \<and> d = CHR 0x27 then post @ GetSubstitution matched pre post t
      else c # GetSubstitution matched pre post (d # t))"

text \<open>\<open>s.replace(pat, template)\<close> with a string \<open>pat\<close>: the first occurrence only.\<close>

definition replace :: "string \<Rightarrow> string \<Rightarrow> string \<Rightarrow> string" where
  "replace s pat template =
     (case find_first pat s of
        None \<Rightarrow> s
      | Some (b, a) \<Rightarrow> b @ GetSubstitution pat b a template @ a)"

text \<open>\<open>${input.awsBucket}.s3.${input.awsRegion}.amazonaws.com/\<close>\<close>

definition s3_host :: "input \<Rightarrow> string" where
  "s3_host inp = awsBucket inp @ ''.s3.'' @ awsRegion inp @ ''.amazonaws.com/''"

text \<open>
  The rewrite to an alternative domain, the same three lines at each of its three places:
  \<open>if (domain) url = url.replace(`<host>/${bucketRoot}`, `${domain}/`)\<close>.
\<close>

definition rewrite :: "input \<Rightarrow> string \<Rightarrow> string \<Rightarrow> string \<Rightarrow> string" where
  "rewrite inp broot domain url =
     (if domain \<noteq> [] then replace url (s3_host inp @ broot) (domain @ ''/'') else url)"

section \<open>The run (main.js, lines 72 to 233)\<close>

text \<open>
  What a run changes: the files of the working directory, the calls made on the S3
  client in their order, the outputs set with \<open>core.setOutput\<close>, and the message given
  to \<open>core.setFailed\<close>.
\<close>

datatype s3_call = PutObject params | GetSignedUrl string string int

record state =
  files :: "string \<rightharpoonup> bytes"
  calls :: "s3_call list"
  outputs :: "(string \<times> string) list"
  failed :: "string option"

text \<open>
  What the run does not decide: the values of \<open>Math.random()\<close>, whether the storage
  service accepts an upload (\<open>None\<close>) or rejects it with a message, the signed URL (or the
  message of the failure) for a bucket, a key and an expiry, and the image that
  \<open>qr.toFile\<close> renders for a text and a width (or the message of its failure).
\<close>

record world =
  random :: "nat \<Rightarrow> real"
  putObject :: "params \<Rightarrow> string option"
  getSignedUrl :: "string \<Rightarrow> string \<Rightarrow> int \<Rightarrow> string + string"
  toFile :: "string \<Rightarrow> int \<Rightarrow> string + bytes"

text \<open>
  The message of Node's error for a file that does not exist, as
  \<open>ENOENT: no such file or directory, open './missing.txt'\<close>.
\<close>

definition enoent :: "string \<Rightarrow> string \<Rightarrow> string" where
  "enoent syscall p =
     ''ENOENT: no such file or directory, '' @ syscall @ '' '' @ [CHR 0x27] @ p @ [CHR 0x27]"

definition readFileSync :: "state \<Rightarrow> string \<Rightarrow> error + bytes" where
  "readFileSync st p =
     (case files st p of None \<Rightarrow> Inl (FsError (enoent ''open'' p)) | Some b \<Rightarrow> Inr b)"

definition unlinkSync :: "string \<Rightarrow> state \<Rightarrow> (error + unit) \<times> state" where
  "unlinkSync p st =
     (case files st p of
        None \<Rightarrow> (Inl (FsError (enoent ''unlink'' p)), st)
      | Some b \<Rightarrow> (Inr (), st\<lparr>files := (files st)(p := None)\<rparr>))"

definition s3_putObject :: "world \<Rightarrow> params \<Rightarrow> state \<Rightarrow> (error + unit) \<times> state" where
  "s3_putObject w ps st =
     (let st1 = st\<lparr>calls := calls st @ [PutObject ps]\<rparr>
      in case putObject w ps of
           Some m \<Rightarrow> (Inl (S3Error m), st1)
         | None \<Rightarrow> (Inr (), st1))"

definition s3_getSignedUrl ::
  "world \<Rightarrow> string \<Rightarrow> string \<Rightarrow> int \<Rightarrow> state \<Rightarrow> (error + string) \<times> state" where
  "s3_getSignedUrl w b k e st =
     (let st1 = st\<lparr>calls := calls st @ [GetSignedUrl b k e]\<rparr>
      in case getSignedUrl w b k e of
           Inl m \<Rightarrow> (Inl (S3Error m), st1)
         | Inr url \<Rightarrow> (Inr url, st1))"

definition qr_toFile :: "world \<Rightarrow> string \<Rightarrow> string \<Rightarrow> int \<Rightarrow> state \<Rightarrow> (error + unit) \<times> state" where
  "qr_toFile w p text width st =
     (case toFile w text width of
        Inl m \<Rightarrow> (Inl (QrError m), st)
      | Inr img \<Rightarrow> (Inr (), st\<lparr>files := (files st)(p \<mapsto> img)\<rparr>))"

definition setOutput :: "string \<Rightarrow> string \<Rightarrow> state \<Rightarrow> state" where
  "setOutput name v st = st\<lparr>outputs := outputs st @ [(name, v)]\<rparr>"

definition fileKey_of :: "world \<Rightarrow> input \<Rightarrow> string" where
  "fileKey_of w inp =
     bucketRoot_of (bucketRoot inp) @ destinationDir_of (random w) (destinationDir inp)
       @ basename (filePath inp)"

definition acl_of :: "input \<Rightarrow> string" where
  "acl_of inp = (if public inp = ''true'' then ''public-read'' else ''private'')"

text \<open>
  Lines 108 to 176: the parameters of the upload of the file. Reading the file comes
  before the check of the checksum algorithm.
\<close>

definition file_params :: "world \<Rightarrow> input \<Rightarrow> state \<Rightarrow> error + params" where
  "file_params w inp st =
     (case readFileSync st (filePath inp) of
        Inl e \<Rightarrow> Inl e
      | Inr body \<Rightarrow>
          checksum_handling inp
            \<lparr>Bucket = awsBucket inp,
             Key = fileKey_of w inp,
             ContentType = contentType inp,
             ContentDisposition =
               Some (if contentDisposition inp \<noteq> [] then contentDisposition inp else ''inline''),
             Body = body,
             ACL = acl_of inp,
             Tagging = Tagging_of (tagging (tags inp)),
             ChecksumAlgorithm = None,
             ChecksumCRC32 = None,
             ChecksumCRC32C = None,
             ChecksumCRC64NVME = None,
             ChecksumSHA1 = None,
             ChecksumSHA256 = None\<rparr>)"

text \<open>Line 183: the URL of a public object.\<close>

definition public_url :: "input \<Rightarrow> string \<Rightarrow> string" where
  "public_url inp k = ''https://'' @ s3_host inp @ k"

text \<open>
  Lines 180 to 201: \<open>fileUrl\<close>, which stays \<open>undefined\<close> (\<open>None\<close>) when neither output is
  asked for.
\<close>

definition fileUrl_step ::
  "world \<Rightarrow> input \<Rightarrow> int \<Rightarrow> state \<Rightarrow> (error + string option) \<times> state" where
  "fileUrl_step w inp expire_v st =
     (if outputFileUrl inp = ''true'' \<or> outputQrUrl inp = ''true''
      then (case (if public inp = ''true''
                  then (Inr (rewrite inp (bucketRoot_of (bucketRoot inp))
                               (alternativeDomainPublic inp)
                               (public_url inp (fileKey_of w inp))), st)
                  else (case s3_getSignedUrl w (awsBucket inp) (fileKey_of w inp) expire_v st of
                          (Inl e, st1) \<Rightarrow> (Inl e, st1)
                        | (Inr url, st1) \<Rightarrow>
                            (Inr (rewrite inp (bucketRoot_of (bucketRoot inp))
                                    (alternativeDomainPrivate inp) url), st1))) of
              (Inl e, st1) \<Rightarrow> (Inl e, st1)
            | (Inr fileUrl, st1) \<Rightarrow>
                (Inr (Some fileUrl),
                 if outputFileUrl inp = ''true'' then setOutput ''file-url'' fileUrl st1 else st1))
      else (Inr None, st))"

definition qrKey_of :: "world \<Rightarrow> input \<Rightarrow> string" where
  "qrKey_of w inp =
     bucketRoot_of (bucketRoot inp) @ destinationDir_of (random w) (destinationDir inp)
       @ ''qr.png''"

definition tmpQrFile :: string where
  "tmpQrFile = ''./s3-upload-action-qr.png''"

text \<open>The parameters of the upload of the QR image (lines 210 to 216).\<close>

definition qr_params :: "world \<Rightarrow> input \<Rightarrow> bytes \<Rightarrow> params" where
  "qr_params w inp body =
     \<lparr>Bucket = awsBucket inp,
      Key = qrKey_of w inp,
      ContentType = ''image/png'',
      ContentDisposition = None,
      Body = body,
      ACL = ''public-read'',
      Tagging = None,
      ChecksumAlgorithm = None,
      ChecksumCRC32 = None,
      ChecksumCRC32C = None,
      ChecksumCRC64NVME = None,
      ChecksumSHA1 = None,
      ChecksumSHA256 = None\<rparr>"

text \<open>
  Lines 205 to 223, reached when \<open>output-qr-url\<close> is \<open>true\<close>. An \<open>undefined\<close> text makes
  \<open>qr.toFile\<close> throw.
\<close>

definition qr_step ::
  "world \<Rightarrow> input \<Rightarrow> int \<Rightarrow> string option \<Rightarrow> state \<Rightarrow> (error + unit) \<times> state" where
  "qr_step w inp qrWidth_v fileUrl st =
     (case fileUrl of
        None \<Rightarrow> (Inl (QrError ''No input text''), st)
      | Some url \<Rightarrow>
     (case qr_toFile w tmpQrFile url qrWidth_v st of
        (Inl e, st1) \<Rightarrow> (Inl e, st1)
      | (Inr _, st1) \<Rightarrow>
     (case readFileSync st1 tmpQrFile of
        Inl e \<Rightarrow> (Inl e, st1)
      | Inr body \<Rightarrow>
     (case s3_putObject w (qr_params w inp body) st1 of
        (Inl e, st2) \<Rightarrow> (Inl e, st2)
      | (Inr _, st2) \<Rightarrow>
     (case unlinkSync tmpQrFile st2 of
        (Inl e, st3) \<Rightarrow> (Inl e, st3)
      | (Inr _, st3) \<Rightarrow>
          (Inr (),
           setOutput ''qr-url''
             (rewrite inp (bucketRoot_of (bucketRoot inp)) (alternativeDomainPublic inp)
                (public_url inp (qrKey_of w inp)))
             st3))))))"

definition run :: "world \<Rightarrow> input \<Rightarrow> state \<Rightarrow> (error + unit) \<times> state" where
  "run w inp st =
     (case check_expire (expire inp) of
        Inl e \<Rightarrow> (Inl e, st)
      | Inr expire_v \<Rightarrow>
     (case check_qrWidth (qrWidth inp) of
        Inl e \<Rightarrow> (Inl e, st)
      | Inr qrWidth_v \<Rightarrow>
     (case file_params w inp st of
        Inl e \<Rightarrow> (Inl e, st)
      | Inr ps \<Rightarrow>
     (case s3_putObject w ps st of
        (Inl e, st1) \<Rightarrow> (Inl e, st1)
      | (Inr _, st1) \<Rightarrow>
     (case fileUrl_step w inp expire_v st1 of
        (Inl e, st2) \<Rightarrow> (Inl e, st2)
      | (Inr fileUrl, st2) \<Rightarrow>
          if outputQrUrl inp \<noteq> ''true'' then (Inr (), st2)
          else qr_step w inp qrWidth_v fileUrl st2)))))"

text \<open>Lines 226 to 233: the result is reported, and a failure with its message.\<close>

definition main :: "world \<Rightarrow> input \<Rightarrow> state \<Rightarrow> state" where
  "main w inp st =
     (case run w inp st of
        (Inr _, st1) \<Rightarrow> setOutput ''result'' ''success'' st1
      | (Inl e, st1) \<Rightarrow> (setOutput ''result'' ''failure'' st1)\<lparr>failed := Some (message e)\<rparr>)"

section \<open>The specification's words, and example inputs\<close>

text \<open>
  Tag parsing as the specification words it: the key is what stands before the first
  \<open>=\<close> of a pair and the value is all that follows it, both trimmed.
\<close>

definition spec_parse_pair :: "string \<Rightarrow> tag" where
  "spec_parse_pair pair =
     \<lparr>tagKey = trim (takeWhile (\<lambda>c. c \<noteq> CHR ''='') pair),
      tagValue = trim (drop 1 (dropWhile (\<lambda>c. c \<noteq> CHR ''='') pair))\<rparr>"

definition spec_tagging :: "string \<Rightarrow> tag list" where
  "spec_tagging ts =
     map spec_parse_pair (filter (\<lambda>pair. pair \<noteq> []) (map trim (split (CHR '','') ts)))"

text \<open>"Parses as an integer in [0, 604800]" and "as a non-zero integer in [100, 1000]".\<close>

definition expire_valid :: "string \<Rightarrow> bool" where
  "expire_valid s = (case parseInt s of None \<Rightarrow> False | Some e \<Rightarrow> 0 \<le> e \<and> e \<le> 604800)"

definition qrWidth_valid :: "string \<Rightarrow> bool" where
  "qrWidth_valid s =
     (case parseInt s of None \<Rightarrow> False | Some q \<Rightarrow> q \<noteq> 0 \<and> 100 \<le> q \<and> q \<le> 1000)"

text \<open>
  A template holds a substitution pattern when a dollar sign in it is followed by a
  dollar sign, an ampersand, a backquote or a quote.
\<close>

fun has_pattern :: "string \<Rightarrow> bool" where
  "has_pattern (c # d # t) =
     ((c = CHR ''$'' \<and> (d = CHR ''$'' \<or> d = CHR ''&'' \<or> d = CHR 0x60 \<or> d = CHR 0x27))
      \<or> has_pattern (d # t))"
| "has_pattern [c] = False"
| "has_pattern [] = False"

text \<open>
  \<open>pat\<close> occurs in \<open>s\<close> at some position; and it occurs after \<open>pre\<close> and before
  \<open>post\<close>, and at no earlier position.
\<close>

definition occurs :: "string \<Rightarrow> string \<Rightarrow> bool" where
  "occurs pat s = list_ex (\<lambda>n. take (length pat) (drop n s) = pat) [0 ..< Suc (length s)]"

definition first_occurrence :: "string \<Rightarrow> string \<Rightarrow> string \<Rightarrow> string \<Rightarrow> bool" where
  "first_occurrence pat s pre post =
     (s = pre @ pat @ post
      \<and> list_all (\<lambda>n. take (length pat) (drop n s) \<noteq> pat) [0 ..< length pre])"

text \<open>
  \<open>res\<close> is \<open>url\<close> with the first occurrence of \<open>pat\<close> replaced by \<open>new\<close>, and
  \<open>url\<close> itself when \<open>pat\<close> does not occur in it.
\<close>

definition replaced_first :: "string \<Rightarrow> string \<Rightarrow> string \<Rightarrow> string \<Rightarrow> bool" where
  "replaced_first pat new url res =
     (if occurs pat url
      then list_ex
             (\<lambda>n. first_occurrence pat url (take n url) (drop (n + length pat) url)
                  \<and> res = take n url @ new @ drop (n + length pat) url)
             [0 ..< Suc (length url)]
      else res = url)"

text \<open>A host name: letters, digits, hyphens and dots.\<close>

definition is_hostname :: "string \<Rightarrow> bool" where
  "is_hostname d =
     list_all (\<lambda>c. is_digit 36 c \<or> c = CHR ''-'' \<or> c = CHR ''.'') d"

text \<open>The bytes that a string of hexadecimal digits writes, two digits to a byte.\<close>

definition hex_bytes :: "string \<Rightarrow> bytes" where
  "hex_bytes v =
     map (\<lambda>i. 16 * (case digit_val (v ! (2 * i)) of None \<Rightarrow> 0 | Some h \<Rightarrow> h)
               + (case digit_val (v ! (2 * i + 1)) of None \<Rightarrow> 0 | Some l \<Rightarrow> l))
       [0 ..< length v div 2]"

text \<open>The checksum field of the parameters that has a given name.\<close>

definition checksum_field :: "string \<Rightarrow> params \<Rightarrow> string option" where
  "checksum_field name ps =
     (if name = ''ChecksumCRC32'' then ChecksumCRC32 ps
      else if name = ''ChecksumCRC32C'' then ChecksumCRC32C ps
      else if name = ''ChecksumCRC64NVME'' then ChecksumCRC64NVME ps
      else if name = ''ChecksumSHA1'' then ChecksumSHA1 ps
      else if name = ''ChecksumSHA256'' then ChecksumSHA256 ps
      else None)"

text \<open>
  A run to try things on: the file \<open>./dist/y.txt\<close> goes to the bucket \<open>b\<close> of region
  \<open>r\<close>, under the default root and the directory \<open>x\<close>, as a public object, and both
  outputs are asked for. The service accepts every upload.
\<close>

definition example_input :: input where
  "example_input =
     \<lparr>awsAccessKeyId = ''id'', awsSecretAccessKey = ''secret'', awsRegion = ''r'',
      awsBucket = ''b'', filePath = ''./dist/y.txt'', destinationDir = ''x'',
      bucketRoot = [], outputFileUrl = ''true'', contentType = ''text/plain'',
      contentDisposition = [], outputQrUrl = ''true'', qrWidth = ''120'',
      public = ''true'', expire = ''180'', alternativeDomainPublic = [],
      alternativeDomainPrivate = [], tags = [], checksumAlgorithm = [], checksum = []\<rparr>"

definition example_world :: world where
  "example_world =
     \<lparr>random = (\<lambda>i. (2 * real i + 1) / 122),
      putObject = (\<lambda>ps. None),
      getSignedUrl = (\<lambda>b k e. Inr (''https://b.s3.r.amazonaws.com/'' @ k @ ''?X-Amz-Expires=180'')),
      toFile = (\<lambda>text width. Inr [137, 80, 78, 71])\<rparr>"

definition example_state :: state where
  "example_state =
     \<lparr>files = [''./dist/y.txt'' \<mapsto> [104, 105]], calls = [], outputs = [], failed = None\<rparr>"

text \<open>The same service, except that it rejects the upload of an image.\<close>

definition image_rejecting_world :: world where
  "image_rejecting_world =
     example_world\<lparr>putObject :=
       (\<lambda>ps. if ContentType ps = ''image/png'' then Some ''AccessDenied'' else None)\<rparr>"

text \<open>The same service, except that its signed URLs are path-style.\<close>

definition path_style_world :: world where
  "path_style_world =
     example_world\<lparr>getSignedUrl :=
       (\<lambda>b k e. Inr (''https://s3.r.amazonaws.com/'' @ b @ ''/'' @ k @ ''?X-Amz-Expires=180''))\<rparr>"

text \<open>A second sequence of random values, which reaches the end of the alphabet.\<close>

definition late_random :: "nat \<Rightarrow> real" where
  "late_random i = (2 * real (i + 29) + 1) / 122"

text \<open>No checksum field is set.\<close>

definition no_checksum_fields :: "params \<Rightarrow> bool" where
  "no_checksum_fields ps =
     (ChecksumAlgorithm ps = None \<and> ChecksumCRC32 ps = None \<and> ChecksumCRC32C ps = None
      \<and> ChecksumCRC64NVME ps = None \<and> ChecksumSHA1 ps = None \<and> ChecksumSHA256 ps = None)"

text \<open>The calls that a run adds to those made before it.\<close>

definition calls_of_run :: "world \<Rightarrow> input \<Rightarrow> state \<Rightarrow> s3_call list" where
  "calls_of_run w inp st = drop (length (calls st)) (calls (snd (run w inp st)))"

section \<open>Properties\<close>

declare getRandomStr_loop.simps [simp del]

subsection \<open>Tags\<close>

text \<open>
  What the parser does with a pair: the key is what stands before the first \<open>=\<close>, and
  the value is what stands between the first \<open>=\<close> and the second, if there is one.
\<close>

lemma split_takeWhile:
  "split sep s =
     takeWhile (\<lambda>c. c \<noteq> sep) s #
       (case dropWhile (\<lambda>c. c \<noteq> sep) s of [] \<Rightarrow> [] | d # rest \<Rightarrow> split sep rest)"
  by (induction s) (auto split: list.splits)

lemma trim_Nil: "trim [] = []"
  by (simp add: trim_def)

lemma parse_pair_eq:
  "parse_pair pair =
     \<lparr>tagKey = trim (takeWhile (\<lambda>c. c \<noteq> CHR ''='') pair),
      tagValue = trim (takeWhile (\<lambda>c. c \<noteq> CHR ''='')
                         (drop 1 (dropWhile (\<lambda>c. c \<noteq> CHR ''='') pair)))\<rparr>"
proof (cases "dropWhile (\<lambda>c. c \<noteq> CHR ''='') pair")
  case Nil
  show ?thesis
    by (simp add: parse_pair_def split_takeWhile [of _ pair] trim_Nil Nil
          del: dropWhile_eq_Nil_conv)
next
  case (Cons d rest)
  show ?thesis
    by (simp add: parse_pair_def split_takeWhile [of _ pair] split_takeWhile [of _ rest] Cons)
qed

text \<open>
  So the parser does what the specification says on every pair with at most one \<open>=\<close>,
  and on the specification's own example.
\<close>

lemma parse_pair_spec:
  assumes "count_list pair (CHR ''='') \<le> 1"
  shows "parse_pair pair = spec_parse_pair pair"
proof -
  let ?rest = "drop 1 (dropWhile (\<lambda>c. c \<noteq> CHR ''='') pair)"
  have "CHR ''='' \<notin> set ?rest"
  proof (cases "dropWhile (\<lambda>c. c \<noteq> CHR ''='') pair")
    case Nil
    show ?thesis by (simp add: Nil del: dropWhile_eq_Nil_conv)
  next
    case (Cons d rest)
    then have d: "d = CHR ''=''" using hd_dropWhile [of "\<lambda>c. c \<noteq> CHR ''=''" pair] by auto
    have "count_list (takeWhile (\<lambda>c. c \<noteq> CHR ''='') pair @ dropWhile (\<lambda>c. c \<noteq> CHR ''='') pair)
            (CHR ''='') = count_list pair (CHR ''='')"
      by (simp only: takeWhile_dropWhile_id)
    then have "count_list (takeWhile (\<lambda>c. c \<noteq> CHR ''='') pair) (CHR ''='')
                 + count_list (d # rest) (CHR ''='') = count_list pair (CHR ''='')"
      by (simp only: count_list_append Cons)
    with assms d have "count_list rest (CHR ''='') = 0" by simp
    then have "CHR ''='' \<notin> set rest" by (simp add: count_list_0_iff)
    with Cons show ?thesis by simp
  qed
  then have "takeWhile (\<lambda>c. c \<noteq> CHR ''='') ?rest = ?rest"
    by (auto simp add: takeWhile_eq_all_conv)
  then show ?thesis
    unfolding parse_pair_eq spec_parse_pair_def by (simp only:)
qed

lemma tagging_spec:
  assumes "ts \<noteq> []"
    and "\<forall>pair \<in> set (map trim (split (CHR '','') ts)). count_list pair (CHR ''='') \<le> 1"
  shows "tagging ts = Some (spec_tagging ts)"
proof -
  have "map parse_pair (filter (\<lambda>pair. pair \<noteq> []) (map trim (split (CHR '','') ts))) =
        map spec_parse_pair (filter (\<lambda>pair. pair \<noteq> []) (map trim (split (CHR '','') ts)))"
    using assms(2) by (intro map_cong refl parse_pair_spec) auto
  with assms(1) show ?thesis by (simp add: tagging_def spec_tagging_def)
qed

lemma tagging_example:
  "tagging ''A=1, B=2,,C='' =
     Some [\<lparr>tagKey = ''A'', tagValue = ''1''\<rparr>, \<lparr>tagKey = ''B'', tagValue = ''2''\<rparr>,
           \<lparr>tagKey = ''C'', tagValue = []\<rparr>]"
  by code_simp

text \<open>
  C1. The claim: the tag string is split at the commas, each pair is trimmed, empty pairs
  are dropped, and of each pair the text before the first \<open>=\<close> is the key and the whole
  remainder after it is the value. On the pair \<open>A=1=2\<close> the remainder is \<open>1=2\<close>,
  and the parser gives the value \<open>1\<close>: the destructuring of \<open>pair.split('=')\<close> keeps
  the first two pieces and drops \<open>2\<close>, and the upload carries the tagging \<open>A=1\<close>.
\<close>

theorem tagging_second_equals_sign:
  "tagging ''A=1=2'' = Some [\<lparr>tagKey = ''A'', tagValue = ''1''\<rparr>] \<and>
   spec_tagging ''A=1=2'' = [\<lparr>tagKey = ''A'', tagValue = ''1=2''\<rparr>] \<and>
   Tagging_of (tagging ''A=1=2'') = Some ''A=1''"
  by code_simp

subsection \<open>The calls of a run\<close>

text \<open>
  A run makes no call, or it makes the upload of the file first; any upload after that
  one is the upload of the QR image.
\<close>

lemma s3_putObject_state:
  "s3_putObject w ps st = (r, st') \<Longrightarrow>
     calls st' = calls st @ [PutObject ps] \<and> files st' = files st"
  by (auto simp add: s3_putObject_def Let_def split: option.splits)

lemma fileUrl_step_state:
  "fileUrl_step w inp e st = (r, st') \<Longrightarrow>
     (\<exists>cs. calls st' = calls st @ cs \<and> (\<forall>q. PutObject q \<notin> set cs)) \<and> files st' = files st"
  by (auto simp add: fileUrl_step_def s3_getSignedUrl_def setOutput_def Let_def
        split: if_splits sum.splits prod.splits)

lemma qr_step_calls:
  "qr_step w inp q u st = (r, st') \<Longrightarrow>
     \<exists>cs. calls st' = calls st @ cs \<and>
          (\<forall>p. PutObject p \<in> set cs \<longrightarrow> (\<exists>body. p = qr_params w inp body))"
  by (auto simp add: qr_step_def qr_toFile_def readFileSync_def s3_putObject_def unlinkSync_def
        setOutput_def Let_def
        split: if_splits sum.splits prod.splits option.splits)

lemma run_calls:
  "\<exists>cs. calls (snd (run w inp st)) = calls st @ cs \<and>
     (cs = [] \<or>
      (\<exists>ps rest. file_params w inp st = Inr ps \<and> cs = PutObject ps # rest \<and>
         (\<forall>p. PutObject p \<in> set rest \<longrightarrow> (\<exists>body. p = qr_params w inp body))))"
proof (cases "check_expire (expire inp)")
  case (Inl e)
  then show ?thesis by (simp add: run_def)
next
  case ex: (Inr expire_v)
  show ?thesis
  proof (cases "check_qrWidth (qrWidth inp)")
    case (Inl e)
    with ex show ?thesis by (simp add: run_def)
  next
    case qw: (Inr qrWidth_v)
    show ?thesis
    proof (cases "file_params w inp st")
      case (Inl e)
      with ex qw show ?thesis by (simp add: run_def)
    next
      case fp: (Inr ps)
      obtain r1 st1 where put: "s3_putObject w ps st = (r1, st1)"
        by (cases "s3_putObject w ps st")
      from s3_putObject_state [OF put]
      have c1: "calls st1 = calls st @ [PutObject ps]" by simp
      show ?thesis
      proof (cases r1)
        case (Inl e)
        with ex qw fp put c1 show ?thesis by (simp add: run_def)
      next
        case r1: (Inr u1)
        obtain r2 st2 where fu: "fileUrl_step w inp expire_v st1 = (r2, st2)"
          by (cases "fileUrl_step w inp expire_v st1")
        from fileUrl_step_state [OF fu] obtain cs2
          where c2: "calls st2 = calls st1 @ cs2" and n2: "\<forall>q. PutObject q \<notin> set cs2"
          by blast
        show ?thesis
        proof (cases r2)
          case (Inl e)
          with ex qw fp put r1 fu c1 c2 n2 show ?thesis by (simp add: run_def)
        next
          case r2: (Inr fileUrl)
          show ?thesis
          proof (cases "outputQrUrl inp \<noteq> ''true''")
            case True
            with ex qw fp put r1 fu r2 c1 c2 n2 show ?thesis by (simp add: run_def)
          next
            case False
            obtain r3 st3 where qs: "qr_step w inp qrWidth_v fileUrl st2 = (r3, st3)"
              by (cases "qr_step w inp qrWidth_v fileUrl st2")
            from qr_step_calls [OF qs] obtain cs3
              where c3: "calls st3 = calls st2 @ cs3"
                and n3: "\<forall>p. PutObject p \<in> set cs3 \<longrightarrow> (\<exists>body. p = qr_params w inp body)"
              by blast
            have "snd (run w inp st) = st3"
              using ex qw fp put r1 fu r2 False qs by (simp add: run_def)
            with c1 c2 c3 n2 n3 fp show ?thesis by auto
          qed
        qed
      qed
    qed
  qed
qed

subsection \<open>The temporary file of the QR image\<close>

lemma qr_step_success:
  "qr_step w inp q u st = (Inr x, st') \<Longrightarrow> files st' tmpQrFile = None"
  by (auto simp add: qr_step_def qr_toFile_def readFileSync_def s3_putObject_def unlinkSync_def
        setOutput_def Let_def
        split: if_splits sum.splits prod.splits option.splits)

text \<open>
  C2, as amended. In every run with the QR output enabled that completes without an
  error (so the image was written and its upload succeeded), the temporary file
  \<open>./s3-upload-action-qr.png\<close> does not exist afterwards.
\<close>

theorem tmpQrFile_removed_on_success:
  assumes "outputQrUrl inp = ''true''" and "fst (run w inp st) = Inr ()"
  shows "files (snd (run w inp st)) tmpQrFile = None"
proof -
  obtain r st' where rs: "run w inp st = (r, st')" by (cases "run w inp st")
  with assms(2) have r: "r = Inr ()" by simp
  from rs r assms(1) obtain q u st2 where "qr_step w inp q u st2 = (Inr (), st')"
    by (auto simp add: run_def split: sum.splits prod.splits if_splits)
  from qr_step_success [OF this] rs show ?thesis by simp
qed

theorem tmpQrFile_removed_on_success_witness:
  "outputQrUrl example_input = ''true'' \<and>
   fst (run example_world example_input example_state) = Inr () \<and>
   files (snd (run example_world example_input example_state)) tmpQrFile = None"
proof -
  have h1: "outputQrUrl example_input = ''true''" by code_simp
  have h2: "fst (run example_world example_input example_state) = Inr ()" by code_simp
  from tmpQrFile_removed_on_success [OF h1 h2] h1 h2 show ?thesis by simp
qed

text \<open>
  C2 as stated also promises this when the QR step fails. It does not hold then: when the
  service rejects the upload of the image, \<open>fs.unlinkSync\<close> is not reached, the run
  fails, and the file that \<open>qr.toFile\<close> wrote is still there.
\<close>

theorem tmpQrFile_left_on_failure_counterexample:
  "outputQrUrl example_input = ''true'' \<and>
   calls_of_run image_rejecting_world example_input example_state =
     [PutObject \<lparr>Bucket = ''b'', Key = ''artifacts/x/y.txt'', ContentType = ''text/plain'',
        ContentDisposition = Some ''inline'', Body = [104, 105], ACL = ''public-read'',
        Tagging = None, ChecksumAlgorithm = None, ChecksumCRC32 = None, ChecksumCRC32C = None,
        ChecksumCRC64NVME = None, ChecksumSHA1 = None, ChecksumSHA256 = None\<rparr>,
      PutObject (qr_params image_rejecting_world example_input [137, 80, 78, 71])] \<and>
   fst (run image_rejecting_world example_input example_state) = Inl (S3Error ''AccessDenied'') \<and>
   files (snd (run image_rejecting_world example_input example_state)) tmpQrFile
     = Some [137, 80, 78, 71]"
  by code_simp

subsection \<open>The random destination directory\<close>

lemma getRandomStr_loop_eq:
  "getRandomStr_loop rnd len i r =
     r @ concat (map (\<lambda>j. char_at c_alphabet \<lfloor>rnd j * real (length c_alphabet)\<rfloor>) [i..<len])"
proof (induction rnd len i r rule: getRandomStr_loop.induct)
  case (1 rnd len i r)
  show ?case
  proof (cases "i < len")
    case True
    then show ?thesis
      using "1.IH" by (subst getRandomStr_loop.simps) (simp add: upt_conv_Cons)
  next
    case False
    then show ?thesis by (subst getRandomStr_loop.simps) simp
  qed
qed

lemma length_c_alphabet: "length c_alphabet = 61"
  by (simp add: c_alphabet_def)

lemma distinct_c_alphabet: "distinct c_alphabet"
  by (simp add: c_alphabet_def)

lemma char_at_random:
  assumes "0 \<le> x" and "x < 1"
  shows "\<exists>k < length c_alphabet. char_at c_alphabet \<lfloor>x * real (length c_alphabet)\<rfloor> = [c_alphabet ! k]"
proof -
  let ?n = "length c_alphabet"
  let ?k = "\<lfloor>x * real ?n\<rfloor>"
  have pos: "0 \<le> x * real ?n" using assms by simp
  then have k0: "0 \<le> ?k" by simp
  have "x * real ?n < real ?n" using assms by (simp add: length_c_alphabet)
  then have k1: "?k < int ?n" by (simp add: floor_less_iff)
  from k0 k1 have "nat ?k < ?n" by linarith
  moreover from k0 k1 have "char_at c_alphabet ?k = [c_alphabet ! nat ?k]"
    by (simp add: char_at_def)
  ultimately show ?thesis by blast
qed

lemma concat_singletons:
  assumes "\<forall>j \<in> set js. \<exists>k < length c. f j = [c ! k]"
  shows "length (concat (map f js)) = length js \<and> set (concat (map f js)) \<subseteq> set c"
  using assms
proof (induction js)
  case Nil
  then show ?case by simp
next
  case (Cons j js)
  then obtain k where "k < length c" and "f j = [c ! k]" by auto
  with Cons show ?case by auto
qed

lemma getRandomStr_alphabet:
  assumes "\<forall>i < len. 0 \<le> rnd i \<and> rnd i < 1"
  shows "length (getRandomStr rnd len) = len \<and> set (getRandomStr rnd len) \<subseteq> set c_alphabet"
proof -
  have "\<forall>j \<in> set [0..<len]. \<exists>k < length c_alphabet.
          char_at c_alphabet \<lfloor>rnd j * real (length c_alphabet)\<rfloor> = [c_alphabet ! k]"
    using assms char_at_random by simp
  from concat_singletons [OF this] show ?thesis
    by (simp add: getRandomStr_def getRandomStr_loop_eq)
qed

text \<open>
  C3, as amended. With an empty \<open>destination-dir\<close>, and every value of
  \<open>Math.random()\<close> in the interval from 0 (included) to 1 (excluded), the destination
  directory is a string of 32 characters followed by a slash, and each of the 32 is one
  of the 61 different characters of the alphabet of \<open>getRandomStr\<close>.
\<close>

theorem random_destinationDir:
  assumes "destinationDir inp = []" and "\<forall>i < 32. 0 \<le> random w i \<and> random w i < 1"
  shows "\<exists>s. destinationDir_of (random w) (destinationDir inp) = s @ ''/'' \<and> length s = 32 \<and>
           set s \<subseteq> set c_alphabet \<and> distinct c_alphabet \<and> length c_alphabet = 61"
  using assms getRandomStr_alphabet [of 32 "random w"]
  by (simp add: destinationDir_of_def distinct_c_alphabet length_c_alphabet)

theorem random_destinationDir_witness:
  "destinationDir (example_input\<lparr>destinationDir := []\<rparr>) = [] \<and>
   (\<exists>s. destinationDir_of (random example_world) (destinationDir (example_input\<lparr>destinationDir := []\<rparr>)) = s @ ''/'' \<and> length s = 32 \<and>
           set s \<subseteq> set c_alphabet \<and> distinct c_alphabet \<and> length c_alphabet = 61)"
proof -
  have h1: "destinationDir (example_input\<lparr>destinationDir := []\<rparr>) = []" by simp
  have h2: "\<forall>i < 32. 0 \<le> random example_world i \<and> random example_world i < 1"
    by (simp add: example_world_def)
  from random_destinationDir [OF h1 h2] h1 show ?thesis by blast
qed

lemma destinationDir_early: "destinationDir_of (random example_world) [] = ''abcdefghijklmnopqrstuvwxyzABCDEF/''"
  by code_simp
lemma destinationDir_late: "destinationDir_of late_random [] = ''DEFGHJKLMNOPQRSTUVWXYZ0123456789/''"
  by code_simp

text \<open>
  C3 as stated has an alphabet of 60 characters. Two runs are enough to draw 61 different
  characters, so no set of 60 characters holds the directories of both.
\<close>

theorem sixty_characters_counterexample:
  "\<not> (\<exists>A. card A = 60 \<and>
         set (butlast (destinationDir_of (random example_world) [])) \<subseteq> A \<and>
         set (butlast (destinationDir_of late_random [])) \<subseteq> A)"
proof
  assume "\<exists>A. card A = 60 \<and>
         set (butlast (destinationDir_of (random example_world) [])) \<subseteq> A \<and>
         set (butlast (destinationDir_of late_random [])) \<subseteq> A"
  then obtain A where cA: "card A = 60"
    and s1: "set (butlast (destinationDir_of (random example_world) [])) \<subseteq> A"
    and s2: "set (butlast (destinationDir_of late_random [])) \<subseteq> A"
    by blast
  have fin: "finite A" using cA by (simp add: card_ge_0_finite)
  have u: "set (butlast (destinationDir_of (random example_world) [])) \<union>
        set (butlast (destinationDir_of late_random [])) = set c_alphabet"
    unfolding destinationDir_early destinationDir_late c_alphabet_def by auto
  have "set c_alphabet \<subseteq> A" using s1 s2 u by blast
  then have "card (set c_alphabet) \<le> card A" using fin by (rule card_mono[rotated])
  moreover have "card (set c_alphabet) = 61"
    using distinct_card [OF distinct_c_alphabet] length_c_alphabet by simp
  ultimately show False using cA by simp
qed

subsection \<open>Validation\<close>

lemma run_invalid_expire:
  "\<not> expire_valid (expire inp) \<Longrightarrow> run w inp st = (Inl (Error expire_message), st)"
  by (auto simp add: run_def expire_valid_def check_expire_def split: option.splits)

lemma check_expire_Inl: "check_expire s = Inl e \<Longrightarrow> \<exists>m. e = Error m"
  by (auto simp add: check_expire_def split: option.splits if_splits)

lemma check_qrWidth_Inl: "check_qrWidth s = Inl e \<Longrightarrow> \<exists>m. e = Error m"
  by (auto simp add: check_qrWidth_def split: option.splits if_splits)

lemma check_qrWidth_invalid: "\<not> qrWidth_valid s \<Longrightarrow> \<exists>m. check_qrWidth s = Inl (Error m)"
  by (auto simp add: qrWidth_valid_def check_qrWidth_def split: option.splits)

lemma run_invalid_qrWidth:
  assumes "\<not> qrWidth_valid (qrWidth inp)"
  shows "\<exists>m. run w inp st = (Inl (Error m), st)"
proof (cases "check_expire (expire inp)")
  case (Inl e)
  with check_expire_Inl [OF Inl] show ?thesis by (auto simp add: run_def)
next
  case (Inr a)
  with check_qrWidth_invalid [OF assms] show ?thesis by (auto simp add: run_def)
qed

lemma file_params_unsupported:
  assumes "checksumAlgorithm inp \<noteq> []" and "checksumAlgorithm inp \<notin> set checksum_algorithms"
  shows "\<exists>e. file_params w inp st = Inl e \<and> (files st (filePath inp) \<noteq> None \<longrightarrow> (\<exists>m. e = Error m))"
  using assms
  by (auto simp add: file_params_def checksum_handling_def readFileSync_def split: option.splits)

lemma run_unsupported:
  assumes "checksumAlgorithm inp \<noteq> []" and "checksumAlgorithm inp \<notin> set checksum_algorithms"
  shows "\<exists>e. run w inp st = (Inl e, st) \<and> (files st (filePath inp) \<noteq> None \<longrightarrow> (\<exists>m. e = Error m))"
proof -
  from file_params_unsupported [OF assms] obtain e
    where e: "file_params w inp st = Inl e"
      and m: "files st (filePath inp) \<noteq> None \<longrightarrow> (\<exists>m. e = Error m)"
    by blast
  show ?thesis
  proof (cases "check_expire (expire inp)")
    case (Inl e1)
    then have "\<exists>m. e1 = Error m" by (rule check_expire_Inl)
    with Inl show ?thesis by (auto simp add: run_def)
  next
    case ex: (Inr a)
    show ?thesis
    proof (cases "check_qrWidth (qrWidth inp)")
      case (Inl e1)
      then have "\<exists>m. e1 = Error m" by (rule check_qrWidth_Inl)
      with ex Inl show ?thesis by (auto simp add: run_def)
    next
      case (Inr b)
      with ex e m show ?thesis by (simp add: run_def)
    qed
  qed
qed

text \<open>
  C4, as amended. When \<open>expire\<close> does not parse as an integer in [0, 604800], or
  \<open>qr-width\<close> does not parse as a non-zero integer in [100, 1000], or the checksum
  algorithm is neither empty nor one of the five supported ones, the run fails and
  leaves the state as it was: no call on the S3 client has been made, so nothing has
  been uploaded. The error is one that \<open>run\<close> throws itself (a validation error) when
  \<open>expire\<close> or \<open>qr-width\<close> is at fault, and for an unsupported checksum algorithm
  when the source file can be read: the file is read before the algorithm is checked.
\<close>

theorem invalid_configuration_fails_before_network:
  assumes "\<not> expire_valid (expire inp) \<or> \<not> qrWidth_valid (qrWidth inp) \<or>
           (checksumAlgorithm inp \<noteq> [] \<and> checksumAlgorithm inp \<notin> set checksum_algorithms)"
  shows "\<exists>e. fst (run w inp st) = Inl e \<and> snd (run w inp st) = st \<and>
           calls_of_run w inp st = [] \<and>
           (\<not> expire_valid (expire inp) \<or> \<not> qrWidth_valid (qrWidth inp) \<or>
              files st (filePath inp) \<noteq> None \<longrightarrow> (\<exists>m. e = Error m))"
proof -
  consider (a) "\<not> expire_valid (expire inp)"
    | (b) "\<not> qrWidth_valid (qrWidth inp)"
    | (c) "expire_valid (expire inp)" "qrWidth_valid (qrWidth inp)"
          "checksumAlgorithm inp \<noteq> []" "checksumAlgorithm inp \<notin> set checksum_algorithms"
    using assms by blast
  then show ?thesis
  proof cases
    case a
    from run_invalid_expire [OF a, of w st] show ?thesis by (simp add: calls_of_run_def)
  next
    case b
    from run_invalid_qrWidth [OF b, of w st] show ?thesis by (auto simp add: calls_of_run_def)
  next
    case c
    from run_unsupported [OF c(3) c(4), of w st] c(1) c(2) show ?thesis
      by (auto simp add: calls_of_run_def)
  qed
qed

theorem invalid_configuration_fails_before_network_witness:
  "\<not> expire_valid (expire (example_input\<lparr>expire := ''604801''\<rparr>)) \<and>
   (\<exists>e. fst (run example_world (example_input\<lparr>expire := ''604801''\<rparr>) example_state) = Inl e \<and>
        snd (run example_world (example_input\<lparr>expire := ''604801''\<rparr>) example_state) = example_state \<and>
        calls_of_run example_world (example_input\<lparr>expire := ''604801''\<rparr>) example_state = [] \<and>
        (\<exists>m. e = Error m))"
proof -
  have h: "\<not> expire_valid (expire (example_input\<lparr>expire := ''604801''\<rparr>))" by code_simp
  from invalid_configuration_fails_before_network
         [of "example_input\<lparr>expire := ''604801''\<rparr>" example_world example_state] h
  show ?thesis by blast
qed

text \<open>
  C4 as stated promises a validation error for every such input. With an unsupported
  checksum algorithm and a source file that does not exist, the run fails with the error
  of \<open>fs.readFileSync\<close> instead.
\<close>

theorem unreadable_file_counterexample:
  "checksumAlgorithm (example_input\<lparr>checksumAlgorithm := ''MD5'', filePath := ''./missing.txt''\<rparr>) \<noteq> [] \<and>
   checksumAlgorithm (example_input\<lparr>checksumAlgorithm := ''MD5'', filePath := ''./missing.txt''\<rparr>)
     \<notin> set checksum_algorithms \<and>
   fst (run example_world
          (example_input\<lparr>checksumAlgorithm := ''MD5'', filePath := ''./missing.txt''\<rparr>)
          example_state) = Inl (FsError (enoent ''open'' ''./missing.txt''))"
  by code_simp

subsection \<open>The rewrite to an alternative domain\<close>

lemma occurs_iff: "occurs pat s \<longleftrightarrow> (\<exists>n \<le> length s. take (length pat) (drop n s) = pat)"
  unfolding occurs_def list_ex_iff
  by (auto simp add: less_Suc_eq_le simp del: upt_Suc)

lemma first_occurrence_iff:
  "first_occurrence pat s pre post \<longleftrightarrow>
     s = pre @ pat @ post \<and> (\<forall>n < length pre. take (length pat) (drop n s) \<noteq> pat)"
  by (auto simp add: first_occurrence_def list_all_iff)

lemma find_first_None: "find_first pat s = None \<Longrightarrow> \<not> occurs pat s"
proof (induction s)
  case Nil
  then show ?case by (auto simp add: occurs_iff split: if_splits)
next
  case (Cons c cs)
  from Cons.prems have h: "take (length pat) (c # cs) \<noteq> pat" and t: "find_first pat cs = None"
    by (auto split: if_splits option.splits)
  from Cons.IH [OF t] have ih: "\<forall>n \<le> length cs. take (length pat) (drop n cs) \<noteq> pat"
    by (simp add: occurs_iff)
  show ?case unfolding occurs_iff
  proof (intro notI, elim exE conjE)
    fix n assume n: "n \<le> length (c # cs)" and e: "take (length pat) (drop n (c # cs)) = pat"
    show False
    proof (cases n)
      case 0
      with e h show False by simp
    next
      case (Suc m)
      with n e ih show False by simp
    qed
  qed
qed

lemma find_first_Some: "find_first pat s = Some (b, a) \<Longrightarrow> first_occurrence pat s b a"
proof (induction s arbitrary: b a)
  case Nil
  then show ?case by (auto simp add: first_occurrence_iff split: if_splits)
next
  case (Cons c cs)
  show ?case
  proof (cases "take (length pat) (c # cs) = pat")
    case True
    with Cons.prems have "b = []" and "a = drop (length pat) (c # cs)" by auto
    moreover from True have "c # cs = pat @ drop (length pat) (c # cs)"
      by (metis append_take_drop_id)
    ultimately show ?thesis by (simp add: first_occurrence_iff)
  next
    case False
    with Cons.prems obtain b' where t: "find_first pat cs = Some (b', a)" and b: "b = c # b'"
      by (auto split: option.splits)
    from Cons.IH [OF t] have fo: "first_occurrence pat cs b' a" .
    from fo have eq: "cs = b' @ pat @ a"
      unfolding first_occurrence_iff by blast
    from fo have ih: "\<forall>n < length b'. take (length pat) (drop n cs) \<noteq> pat"
      unfolding first_occurrence_iff by blast
    have "\<forall>n < length b. take (length pat) (drop n (c # cs)) \<noteq> pat"
    proof (intro allI impI)
      fix n assume n: "n < length b"
      show "take (length pat) (drop n (c # cs)) \<noteq> pat"
      proof (cases n)
        case 0
        with False show ?thesis by simp
      next
        case (Suc m)
        with n b ih show ?thesis by simp
      qed
    qed
    with eq b show ?thesis by (simp add: first_occurrence_iff)
  qed
qed

lemma first_occurrence_occurs: "first_occurrence pat s b a \<Longrightarrow> occurs pat s"
  unfolding first_occurrence_iff occurs_iff
  by (intro exI [of _ "length b"]) auto

lemma GetSubstitution_plain: "\<not> has_pattern t \<Longrightarrow> GetSubstitution m b a t = t"
  by (induction m b a t rule: GetSubstitution.induct) auto

lemma has_pattern_slash: "has_pattern (d @ ''/'') = has_pattern d"
  by (induction d rule: has_pattern.induct) auto

lemma no_dollar_no_pattern: "CHR ''$'' \<notin> set d \<Longrightarrow> \<not> has_pattern d"
  by (induction d rule: has_pattern.induct) auto

lemma hostname_no_pattern: "is_hostname d \<Longrightarrow> \<not> has_pattern d"
proof -
  assume h: "is_hostname d"
  have "\<not> is_digit 36 (CHR ''$'')" by code_simp
  with h have "CHR ''$'' \<notin> set d"
    by (auto simp add: is_hostname_def list_all_iff)
  then show ?thesis by (rule no_dollar_no_pattern)
qed

lemma first_occurrence_replaced:
  assumes "first_occurrence pat url b a"
  shows "replaced_first pat new url (b @ new @ a)"
proof -
  from assms have eq: "url = b @ pat @ a" by (simp add: first_occurrence_iff)
  have t: "take (length b) url = b" and d: "drop (length b + length pat) url = a"
    using eq by simp_all
  have "length b \<in> set [0 ..< Suc (length url)]" using eq by simp
  moreover have "first_occurrence pat url (take (length b) url) (drop (length b + length pat) url)
      \<and> b @ new @ a = take (length b) url @ new @ drop (length b + length pat) url"
    using assms t d by simp
  ultimately have "list_ex
             (\<lambda>n. first_occurrence pat url (take n url) (drop (n + length pat) url)
                  \<and> b @ new @ a = take n url @ new @ drop (n + length pat) url)
             [0 ..< Suc (length url)]"
    unfolding list_ex_iff by blast
  with first_occurrence_occurs [OF assms] show ?thesis
    by (simp only: replaced_first_def if_True)
qed

lemma rewrite_replaced_first:
  assumes "domain \<noteq> []" and "\<not> has_pattern domain"
  shows "replaced_first (s3_host inp @ broot) (domain @ ''/'') url (rewrite inp broot domain url)"
proof (cases "find_first (s3_host inp @ broot) url")
  case None
  from find_first_None [OF None] None assms show ?thesis
    by (simp add: rewrite_def replace_def replaced_first_def)
next
  case (Some ba)
  obtain b a where ba: "ba = (b, a)" by (cases ba)
  from Some ba have f: "first_occurrence (s3_host inp @ broot) url b a"
    by (simp add: find_first_Some)
  have "rewrite inp broot domain url = b @ (domain @ ''/'') @ a"
    using Some ba assms by (simp add: rewrite_def replace_def GetSubstitution_plain has_pattern_slash)
  with first_occurrence_replaced [OF f, of "domain @ ''/''"] show ?thesis by simp
qed

lemma fileUrl_step_public:
  assumes "public inp = ''true''" and "outputFileUrl inp = ''true'' \<or> outputQrUrl inp = ''true''"
  shows "fst (fileUrl_step w inp e st) =
           Inr (Some (rewrite inp (bucketRoot_of (bucketRoot inp)) (alternativeDomainPublic inp)
                        (public_url inp (fileKey_of w inp)))) \<and>
         outputs (snd (fileUrl_step w inp e st)) =
           outputs st @ (if outputFileUrl inp = ''true''
                         then [(''file-url'', rewrite inp (bucketRoot_of (bucketRoot inp))
                                  (alternativeDomainPublic inp) (public_url inp (fileKey_of w inp)))]
                         else [])"
  using assms by (auto simp add: fileUrl_step_def setOutput_def)

lemma fileUrl_step_signed:
  assumes "public inp \<noteq> ''true''" and "outputFileUrl inp = ''true'' \<or> outputQrUrl inp = ''true''"
    and "getSignedUrl w (awsBucket inp) (fileKey_of w inp) e = Inr url"
  shows "fst (fileUrl_step w inp e st) =
           Inr (Some (rewrite inp (bucketRoot_of (bucketRoot inp)) (alternativeDomainPrivate inp) url)) \<and>
         outputs (snd (fileUrl_step w inp e st)) =
           outputs st @ (if outputFileUrl inp = ''true''
                         then [(''file-url'', rewrite inp (bucketRoot_of (bucketRoot inp))
                                  (alternativeDomainPrivate inp) url)]
                         else [])"
  using assms by (auto simp add: fileUrl_step_def s3_getSignedUrl_def setOutput_def Let_def)

lemma qr_step_outputs:
  assumes "fst (qr_step w inp q u st) = Inr ()"
  shows "outputs (snd (qr_step w inp q u st)) =
           outputs st @ [(''qr-url'', rewrite inp (bucketRoot_of (bucketRoot inp))
                            (alternativeDomainPublic inp) (public_url inp (qrKey_of w inp)))]"
  using assms
  by (auto simp add: qr_step_def qr_toFile_def readFileSync_def s3_putObject_def unlinkSync_def
        setOutput_def Let_def
        split: if_splits sum.splits prod.splits option.splits)

lemma replaced_first_unique:
  assumes "replaced_first pat new url r1" and "replaced_first pat new url r2"
  shows "r1 = r2"
proof (cases "occurs pat url")
  case False
  with assms show ?thesis by (simp add: replaced_first_def)
next
  case True
  with assms obtain n m where
    n: "first_occurrence pat url (take n url) (drop (n + length pat) url)"
       "r1 = take n url @ new @ drop (n + length pat) url" "n \<le> length url" and
    m: "first_occurrence pat url (take m url) (drop (m + length pat) url)"
       "r2 = take m url @ new @ drop (m + length pat) url" "m \<le> length url"
    by (auto simp add: replaced_first_def list_ex_iff less_Suc_eq_le simp del: upt_Suc)
  have occ_n: "take (length pat) (drop n url) = pat"
  proof -
    from n(1) have "url = take n url @ pat @ drop (n + length pat) url"
      by (simp add: first_occurrence_iff)
    then have "drop n url = pat @ drop (n + length pat) url"
      using n(3) by (metis append_eq_conv_conj append_take_drop_id)
    then show ?thesis by (metis append_eq_conv_conj)
  qed
  have occ_m: "take (length pat) (drop m url) = pat"
  proof -
    from m(1) have "url = take m url @ pat @ drop (m + length pat) url"
      by (simp add: first_occurrence_iff)
    then have "drop m url = pat @ drop (m + length pat) url"
      using m(3) by (metis append_eq_conv_conj append_take_drop_id)
    then show ?thesis by (metis append_eq_conv_conj)
  qed
  have "\<not> m < n" using n(1) n(3) occ_m by (auto simp add: first_occurrence_iff)
  moreover have "\<not> n < m" using m(1) m(3) occ_n by (auto simp add: first_occurrence_iff)
  ultimately have "n = m" by simp
  with n(2) m(2) show ?thesis by simp
qed

text \<open>
  C5. For every resolved URL, with the alternative domain that matches it not empty:
  the URL of a public file with the public domain, the signed URL of a private file
  with the private domain, and the URL of the QR image with the public domain. When the
  URL contains the text \<open><bucket>.s3.<region>.amazonaws.com/<bucketRoot>\<close>, the
  rewritten URL is the URL with \<open><alternativeDomain>/\<close> in the place of the first
  occurrence of that text; when the URL does not contain it, the rewritten URL is the URL
  as it was. The rewritten URL is what the step returns and what it sets as output. A
  domain is a text with no substitution pattern of \<open>String.prototype.replace\<close> (a
  dollar sign followed by a dollar sign, an ampersand, a backquote or a quote); every
  host name is one, as it has no dollar sign at all.
\<close>

theorem alternative_domain_rewrite:
  "(public inp = ''true'' \<and> (outputFileUrl inp = ''true'' \<or> outputQrUrl inp = ''true'') \<and>
    alternativeDomainPublic inp \<noteq> [] \<and> \<not> has_pattern (alternativeDomainPublic inp) \<longrightarrow>
      (\<exists>res. fst (fileUrl_step w inp e st) = Inr (Some res) \<and>
         outputs (snd (fileUrl_step w inp e st)) =
           outputs st @ (if outputFileUrl inp = ''true'' then [(''file-url'', res)] else []) \<and>
         replaced_first (s3_host inp @ bucketRoot_of (bucketRoot inp))
           (alternativeDomainPublic inp @ ''/'') (public_url inp (fileKey_of w inp)) res)) \<and>
   (public inp \<noteq> ''true'' \<and> (outputFileUrl inp = ''true'' \<or> outputQrUrl inp = ''true'') \<and>
    getSignedUrl w (awsBucket inp) (fileKey_of w inp) e = Inr url \<and>
    alternativeDomainPrivate inp \<noteq> [] \<and> \<not> has_pattern (alternativeDomainPrivate inp) \<longrightarrow>
      (\<exists>res. fst (fileUrl_step w inp e st) = Inr (Some res) \<and>
         outputs (snd (fileUrl_step w inp e st)) =
           outputs st @ (if outputFileUrl inp = ''true'' then [(''file-url'', res)] else []) \<and>
         replaced_first (s3_host inp @ bucketRoot_of (bucketRoot inp))
           (alternativeDomainPrivate inp @ ''/'') url res)) \<and>
   (fst (qr_step w inp q u st) = Inr () \<and>
    alternativeDomainPublic inp \<noteq> [] \<and> \<not> has_pattern (alternativeDomainPublic inp) \<longrightarrow>
      (\<exists>res. outputs (snd (qr_step w inp q u st)) = outputs st @ [(''qr-url'', res)] \<and>
         replaced_first (s3_host inp @ bucketRoot_of (bucketRoot inp))
           (alternativeDomainPublic inp @ ''/'') (public_url inp (qrKey_of w inp)) res))"
proof (intro conjI impI)
  assume a: "public inp = ''true'' \<and> (outputFileUrl inp = ''true'' \<or> outputQrUrl inp = ''true'') \<and>
    alternativeDomainPublic inp \<noteq> [] \<and> \<not> has_pattern (alternativeDomainPublic inp)"
  then have r: "replaced_first (s3_host inp @ bucketRoot_of (bucketRoot inp))
      (alternativeDomainPublic inp @ ''/'') (public_url inp (fileKey_of w inp))
      (rewrite inp (bucketRoot_of (bucketRoot inp)) (alternativeDomainPublic inp)
         (public_url inp (fileKey_of w inp)))"
    by (simp add: rewrite_replaced_first)
  from a have "public inp = ''true''"
    and "outputFileUrl inp = ''true'' \<or> outputQrUrl inp = ''true''" by simp_all
  from fileUrl_step_public [OF this, of w e st] r
  show "\<exists>res. fst (fileUrl_step w inp e st) = Inr (Some res) \<and>
         outputs (snd (fileUrl_step w inp e st)) =
           outputs st @ (if outputFileUrl inp = ''true'' then [(''file-url'', res)] else []) \<and>
         replaced_first (s3_host inp @ bucketRoot_of (bucketRoot inp))
           (alternativeDomainPublic inp @ ''/'') (public_url inp (fileKey_of w inp)) res"
    by blast
next
  assume a: "public inp \<noteq> ''true'' \<and> (outputFileUrl inp = ''true'' \<or> outputQrUrl inp = ''true'') \<and>
    getSignedUrl w (awsBucket inp) (fileKey_of w inp) e = Inr url \<and>
    alternativeDomainPrivate inp \<noteq> [] \<and> \<not> has_pattern (alternativeDomainPrivate inp)"
  then have r: "replaced_first (s3_host inp @ bucketRoot_of (bucketRoot inp))
      (alternativeDomainPrivate inp @ ''/'') url
      (rewrite inp (bucketRoot_of (bucketRoot inp)) (alternativeDomainPrivate inp) url)"
    by (simp add: rewrite_replaced_first)
  from a have "public inp \<noteq> ''true''"
    and "outputFileUrl inp = ''true'' \<or> outputQrUrl inp = ''true''"
    and "getSignedUrl w (awsBucket inp) (fileKey_of w inp) e = Inr url" by simp_all
  from fileUrl_step_signed [OF this, of st] r
  show "\<exists>res. fst (fileUrl_step w inp e st) = Inr (Some res) \<and>
         outputs (snd (fileUrl_step w inp e st)) =
           outputs st @ (if outputFileUrl inp = ''true'' then [(''file-url'', res)] else []) \<and>
         replaced_first (s3_host inp @ bucketRoot_of (bucketRoot inp))
           (alternativeDomainPrivate inp @ ''/'') url res"
    by blast
next
  assume a: "fst (qr_step w inp q u st) = Inr () \<and>
    alternativeDomainPublic inp \<noteq> [] \<and> \<not> has_pattern (alternativeDomainPublic inp)"
  then have r: "replaced_first (s3_host inp @ bucketRoot_of (bucketRoot inp))
      (alternativeDomainPublic inp @ ''/'') (public_url inp (qrKey_of w inp))
      (rewrite inp (bucketRoot_of (bucketRoot inp)) (alternativeDomainPublic inp)
         (public_url inp (qrKey_of w inp)))"
    by (simp add: rewrite_replaced_first)
  from a have "fst (qr_step w inp q u st) = Inr ()" by simp
  from qr_step_outputs [OF this] r
  show "\<exists>res. outputs (snd (qr_step w inp q u st)) = outputs st @ [(''qr-url'', res)] \<and>
         replaced_first (s3_host inp @ bucketRoot_of (bucketRoot inp))
           (alternativeDomainPublic inp @ ''/'') (public_url inp (qrKey_of w inp)) res"
    by blast
qed

theorem alternative_domain_rewrite_witness:
  "is_hostname ''cdn.example.com'' \<and> is_hostname ''private.example.com'' \<and>
   fst (fileUrl_step example_world
          (example_input\<lparr>alternativeDomainPublic := ''cdn.example.com''\<rparr>) 180 example_state)
     = Inr (Some ''https://cdn.example.com/x/y.txt'') \<and>
   replaced_first ''b.s3.r.amazonaws.com/artifacts/'' ''cdn.example.com/''
     ''https://b.s3.r.amazonaws.com/artifacts/x/y.txt'' ''https://cdn.example.com/x/y.txt'' \<and>
   fst (fileUrl_step example_world
          (example_input\<lparr>public := ''false'', alternativeDomainPrivate := ''private.example.com''\<rparr>)
          180 example_state)
     = Inr (Some ''https://private.example.com/x/y.txt?X-Amz-Expires=180'') \<and>
   replaced_first ''b.s3.r.amazonaws.com/artifacts/'' ''private.example.com/''
     ''https://b.s3.r.amazonaws.com/artifacts/x/y.txt?X-Amz-Expires=180''
     ''https://private.example.com/x/y.txt?X-Amz-Expires=180'' \<and>
   fst (fileUrl_step path_style_world
          (example_input\<lparr>public := ''false'', alternativeDomainPrivate := ''private.example.com''\<rparr>)
          180 example_state)
     = Inr (Some ''https://s3.r.amazonaws.com/b/artifacts/x/y.txt?X-Amz-Expires=180'') \<and>
   replaced_first ''b.s3.r.amazonaws.com/artifacts/'' ''private.example.com/''
     ''https://s3.r.amazonaws.com/b/artifacts/x/y.txt?X-Amz-Expires=180''
     ''https://s3.r.amazonaws.com/b/artifacts/x/y.txt?X-Amz-Expires=180'' \<and>
   outputs (snd (qr_step example_world
                   (example_input\<lparr>alternativeDomainPublic := ''cdn.example.com''\<rparr>) 120
                   (Some ''https://cdn.example.com/x/y.txt'') example_state))
     = [(''qr-url'', ''https://cdn.example.com/x/qr.png'')] \<and>
   replaced_first ''b.s3.r.amazonaws.com/artifacts/'' ''cdn.example.com/''
     ''https://b.s3.r.amazonaws.com/artifacts/x/qr.png'' ''https://cdn.example.com/x/qr.png''"
proof -
  let ?P = "example_input\<lparr>alternativeDomainPublic := ''cdn.example.com''\<rparr>"
  let ?S = "example_input\<lparr>public := ''false'', alternativeDomainPrivate := ''private.example.com''\<rparr>"
  let ?u = "''https://cdn.example.com/x/y.txt''"
  have hn: "is_hostname ''cdn.example.com''" "is_hostname ''private.example.com''"
    by code_simp+
  have np: "\<not> has_pattern (alternativeDomainPublic ?P)" "\<not> has_pattern (alternativeDomainPrivate ?S)"
    using hn [THEN hostname_no_pattern] by simp_all
  have hP: "public ?P = ''true''" "outputFileUrl ?P = ''true''" "alternativeDomainPublic ?P \<noteq> []"
    by code_simp+
  have hS: "public ?S \<noteq> ''true''" "outputFileUrl ?S = ''true''" "alternativeDomainPrivate ?S \<noteq> []"
    "getSignedUrl example_world (awsBucket ?S) (fileKey_of example_world ?S) 180
       = Inr ''https://b.s3.r.amazonaws.com/artifacts/x/y.txt?X-Amz-Expires=180''"
    "getSignedUrl path_style_world (awsBucket ?S) (fileKey_of path_style_world ?S) 180
       = Inr ''https://s3.r.amazonaws.com/b/artifacts/x/y.txt?X-Amz-Expires=180''"
    by code_simp+
  have hQ: "fst (qr_step example_world ?P 120 (Some ?u) example_state) = Inr ()"
    by code_simp
  have c: "s3_host ?P @ bucketRoot_of (bucketRoot ?P) = ''b.s3.r.amazonaws.com/artifacts/''"
    "s3_host ?S @ bucketRoot_of (bucketRoot ?S) = ''b.s3.r.amazonaws.com/artifacts/''"
    "alternativeDomainPublic ?P @ ''/'' = ''cdn.example.com/''"
    "alternativeDomainPrivate ?S @ ''/'' = ''private.example.com/''"
    "public_url ?P (fileKey_of example_world ?P) = ''https://b.s3.r.amazonaws.com/artifacts/x/y.txt''"
    "public_url ?P (qrKey_of example_world ?P) = ''https://b.s3.r.amazonaws.com/artifacts/x/qr.png''"
    by code_simp+
  have v1: "fst (fileUrl_step example_world ?P 180 example_state) = Inr (Some ?u)"
    by code_simp
  have v2: "fst (fileUrl_step example_world ?S 180 example_state)
              = Inr (Some ''https://private.example.com/x/y.txt?X-Amz-Expires=180'')"
    by code_simp
  have v3: "fst (fileUrl_step path_style_world ?S 180 example_state)
              = Inr (Some ''https://s3.r.amazonaws.com/b/artifacts/x/y.txt?X-Amz-Expires=180'')"
    by code_simp
  have v4: "outputs (snd (qr_step example_world ?P 120 (Some ?u) example_state))
              = [(''qr-url'', ''https://cdn.example.com/x/qr.png'')]"
    by code_simp
  have o: "outputs example_state = []" by code_simp
  note t1 = alternative_domain_rewrite [of ?P example_world 180 example_state "[]" 120 "Some ?u"]
  note t2 = alternative_domain_rewrite [of ?S example_world 180 example_state
              "''https://b.s3.r.amazonaws.com/artifacts/x/y.txt?X-Amz-Expires=180''"]
  note t3 = alternative_domain_rewrite [of ?S path_style_world 180 example_state
              "''https://s3.r.amazonaws.com/b/artifacts/x/y.txt?X-Amz-Expires=180''"]
  from t1 hP np(1) obtain r1 where "fst (fileUrl_step example_world ?P 180 example_state) = Inr (Some r1)"
    and "replaced_first (s3_host ?P @ bucketRoot_of (bucketRoot ?P)) (alternativeDomainPublic ?P @ ''/'')
           (public_url ?P (fileKey_of example_world ?P)) r1"
    by blast
  with v1 c have a1: "replaced_first ''b.s3.r.amazonaws.com/artifacts/'' ''cdn.example.com/''
     ''https://b.s3.r.amazonaws.com/artifacts/x/y.txt'' ''https://cdn.example.com/x/y.txt''"
    by simp
  from t1 hQ hP np(1) obtain r4 where
    "outputs (snd (qr_step example_world ?P 120 (Some ?u) example_state)) = outputs example_state @ [(''qr-url'', r4)]"
    and "replaced_first (s3_host ?P @ bucketRoot_of (bucketRoot ?P)) (alternativeDomainPublic ?P @ ''/'')
           (public_url ?P (qrKey_of example_world ?P)) r4"
    by blast
  with v4 c o have a4: "replaced_first ''b.s3.r.amazonaws.com/artifacts/'' ''cdn.example.com/''
     ''https://b.s3.r.amazonaws.com/artifacts/x/qr.png'' ''https://cdn.example.com/x/qr.png''"
    by simp
  from t2 hS np(2) obtain r2 where "fst (fileUrl_step example_world ?S 180 example_state) = Inr (Some r2)"
    and "replaced_first (s3_host ?S @ bucketRoot_of (bucketRoot ?S)) (alternativeDomainPrivate ?S @ ''/'')
           ''https://b.s3.r.amazonaws.com/artifacts/x/y.txt?X-Amz-Expires=180'' r2"
    by blast
  with v2 c have a2: "replaced_first ''b.s3.r.amazonaws.com/artifacts/'' ''private.example.com/''
     ''https://b.s3.r.amazonaws.com/artifacts/x/y.txt?X-Amz-Expires=180''
     ''https://private.example.com/x/y.txt?X-Amz-Expires=180''"
    by simp
  from t3 hS np(2) obtain r3 where "fst (fileUrl_step path_style_world ?S 180 example_state) = Inr (Some r3)"
    and "replaced_first (s3_host ?S @ bucketRoot_of (bucketRoot ?S)) (alternativeDomainPrivate ?S @ ''/'')
           ''https://s3.r.amazonaws.com/b/artifacts/x/y.txt?X-Amz-Expires=180'' r3"
    by blast
  with v3 c have a3: "replaced_first ''b.s3.r.amazonaws.com/artifacts/'' ''private.example.com/''
     ''https://s3.r.amazonaws.com/b/artifacts/x/y.txt?X-Amz-Expires=180''
     ''https://s3.r.amazonaws.com/b/artifacts/x/y.txt?X-Amz-Expires=180''"
    by simp
  from hn v1 v2 v3 v4 a1 a2 a3 a4 show ?thesis by blast
qed

text \<open>
  A text with a substitution pattern is not a host name. Given as the alternative
  domain, it is expanded as a template and does not appear as it is in the URL.
\<close>

lemma rewrite_dollar_template:
  "\<not> is_hostname ''cdn$$.example.com'' \<and> has_pattern ''cdn$$.example.com'' \<and>
   rewrite example_input ''artifacts/'' ''cdn$$.example.com''
     ''https://b.s3.r.amazonaws.com/artifacts/x/y.txt'' = ''https://cdn$.example.com/x/y.txt''"
  by code_simp

subsection \<open>The URL of a public file\<close>

text \<open>
  C6, as amended. For a public file in the bucket \<open>b\<close> of the region \<open>r\<close> whose key
  is \<open>artifacts/x/y.txt\<close>, the URL of the file is
  \<open>https://b.s3.r.amazonaws.com/artifacts/x/y.txt\<close> when no alternative public domain
  is given; with the alternative public domain \<open>cdn.example.com\<close> and the bucket root
  \<open>artifacts/\<close> (so that the key is the root followed by \<open>x/y.txt\<close>) it is
  \<open>https://cdn.example.com/x/y.txt\<close>.
\<close>

theorem public_file_url_example:
  assumes "awsBucket inp = ''b''" and "awsRegion inp = ''r''" and "public inp = ''true''"
    and "outputFileUrl inp = ''true'' \<or> outputQrUrl inp = ''true''"
    and "fileKey_of w inp = ''artifacts/x/y.txt''"
  shows "(alternativeDomainPublic inp = [] \<longrightarrow>
            fst (fileUrl_step w inp e st) =
              Inr (Some ''https://b.s3.r.amazonaws.com/artifacts/x/y.txt'')) \<and>
         (alternativeDomainPublic inp = ''cdn.example.com'' \<and>
          bucketRoot_of (bucketRoot inp) = ''artifacts/'' \<longrightarrow>
            fst (fileUrl_step w inp e st) = Inr (Some ''https://cdn.example.com/x/y.txt''))"
proof -
  have r: "replace ''https://b.s3.r.amazonaws.com/artifacts/x/y.txt''
             ''b.s3.r.amazonaws.com/artifacts/'' ''cdn.example.com/''
           = ''https://cdn.example.com/x/y.txt''"
    by code_simp
  from assms(4) show ?thesis
  proof
    assume "outputFileUrl inp = ''true''"
    with assms(1,2,3,5) r show ?thesis
      by (simp add: fileUrl_step_def rewrite_def public_url_def s3_host_def)
  next
    assume "outputQrUrl inp = ''true''"
    with assms(1,2,3,5) r show ?thesis
      by (simp add: fileUrl_step_def rewrite_def public_url_def s3_host_def)
  qed
qed

theorem public_file_url_example_witness:
  "awsBucket example_input = ''b'' \<and> awsRegion example_input = ''r'' \<and>
   public example_input = ''true'' \<and> outputFileUrl example_input = ''true'' \<and>
   bucketRoot_of (bucketRoot example_input) = ''artifacts/'' \<and>
   fileKey_of example_world example_input = ''artifacts/x/y.txt'' \<and>
   fst (fileUrl_step example_world example_input 180 example_state) =
     Inr (Some ''https://b.s3.r.amazonaws.com/artifacts/x/y.txt'') \<and>
   fst (fileUrl_step example_world
          (example_input\<lparr>alternativeDomainPublic := ''cdn.example.com''\<rparr>) 180 example_state) =
     Inr (Some ''https://cdn.example.com/x/y.txt'') \<and>
   outputs (snd (run example_world
                   (example_input\<lparr>alternativeDomainPublic := ''cdn.example.com'',
                                    outputQrUrl := ''false''\<rparr>) example_state)) =
     [(''file-url'', ''https://cdn.example.com/x/y.txt'')]"
proof -
  let ?alt = "example_input\<lparr>alternativeDomainPublic := ''cdn.example.com''\<rparr>"
  have h: "awsBucket example_input = ''b''" "awsRegion example_input = ''r''"
    "public example_input = ''true''" "outputFileUrl example_input = ''true''"
    "fileKey_of example_world example_input = ''artifacts/x/y.txt''"
    "alternativeDomainPublic example_input = []"
    "bucketRoot_of (bucketRoot example_input) = ''artifacts/''"
    by code_simp+
  have h': "awsBucket ?alt = ''b''" "awsRegion ?alt = ''r''"
    "public ?alt = ''true''" "outputFileUrl ?alt = ''true''"
    "fileKey_of example_world ?alt = ''artifacts/x/y.txt''"
    "alternativeDomainPublic ?alt = ''cdn.example.com''"
    "bucketRoot_of (bucketRoot ?alt) = ''artifacts/''"
    by code_simp+
  have o: "outputs (snd (run example_world
                   (example_input\<lparr>alternativeDomainPublic := ''cdn.example.com'',
                                    outputQrUrl := ''false''\<rparr>) example_state)) =
     [(''file-url'', ''https://cdn.example.com/x/y.txt'')]"
    by code_simp
  from public_file_url_example [of example_input example_world 180 example_state] h
  have a: "fst (fileUrl_step example_world example_input 180 example_state) =
     Inr (Some ''https://b.s3.r.amazonaws.com/artifacts/x/y.txt'')"
    by blast
  from public_file_url_example [of ?alt example_world 180 example_state] h'
  have b: "fst (fileUrl_step example_world ?alt 180 example_state) =
     Inr (Some ''https://cdn.example.com/x/y.txt'')"
    by blast
  from h a b o show ?thesis by blast
qed

text \<open>
  C6 as stated gives the rewritten URL for every file with that key. The rewrite takes
  the bucket root away with the host, and the same key comes from other roots: with the
  bucket root \<open>artifacts/x\<close> and the destination directory \<open>/\<close> the key is
  \<open>artifacts/x/y.txt\<close> again, and the rewritten URL is
  \<open>https://cdn.example.com/y.txt\<close>.
\<close>

theorem bucket_root_counterexample:
  "awsBucket (example_input\<lparr>bucketRoot := ''artifacts/x'', destinationDir := ''/'',
                              alternativeDomainPublic := ''cdn.example.com''\<rparr>) = ''b'' \<and>
   awsRegion (example_input\<lparr>bucketRoot := ''artifacts/x'', destinationDir := ''/'',
                              alternativeDomainPublic := ''cdn.example.com''\<rparr>) = ''r'' \<and>
   public (example_input\<lparr>bucketRoot := ''artifacts/x'', destinationDir := ''/'',
                           alternativeDomainPublic := ''cdn.example.com''\<rparr>) = ''true'' \<and>
   fileKey_of example_world
     (example_input\<lparr>bucketRoot := ''artifacts/x'', destinationDir := ''/'',
                      alternativeDomainPublic := ''cdn.example.com''\<rparr>) = ''artifacts/x/y.txt'' \<and>
   fst (fileUrl_step example_world
          (example_input\<lparr>bucketRoot := ''artifacts/x'', destinationDir := ''/'',
                           alternativeDomainPublic := ''cdn.example.com''\<rparr>) 180 example_state)
     = Inr (Some ''https://cdn.example.com/y.txt'') \<and>
   outputs (snd (run example_world
                   (example_input\<lparr>bucketRoot := ''artifacts/x'', destinationDir := ''/'',
                                    alternativeDomainPublic := ''cdn.example.com'',
                                    outputQrUrl := ''false''\<rparr>) example_state))
     = [(''file-url'', ''https://cdn.example.com/y.txt'')]"
  by code_simp

subsection \<open>The upload of the QR image\<close>



subsection \<open>Checksums\<close>

text \<open>
  The decoder of \<open>Buffer.from\<close> gives, on a string of hexadecimal digits, the bytes
  that the digits write two by two (a last single digit is part of no byte); and
  \<open>toString_base64\<close> gives the test vectors of RFC 4648.
\<close>

lemma hex_bytes_Cons2:
  "hex_bytes (a # b # cs) =
     (16 * (case digit_val a of None \<Rightarrow> 0 | Some h \<Rightarrow> h)
        + (case digit_val b of None \<Rightarrow> 0 | Some l \<Rightarrow> l)) # hex_bytes cs"
  by (simp add: hex_bytes_def map_upt_Suc del: upt_Suc)

lemma Buffer_from_hex_bytes:
  "list_all (is_digit 16) v \<Longrightarrow> Buffer_from_hex v = hex_bytes v"
proof (induction v rule: Buffer_from_hex.induct)
  case (1 a b cs)
  then show ?case
    by (auto simp add: hex_bytes_Cons2 is_digit_def split: option.splits)
qed (simp_all add: hex_bytes_def)

lemma base64_vectors:
  "toString_base64 (map (\<lambda>c. of_char c) ''f'') = ''Zg==''"
  "toString_base64 (map (\<lambda>c. of_char c) ''fo'') = ''Zm8=''"
  "toString_base64 (map (\<lambda>c. of_char c) ''foo'') = ''Zm9v''"
  "toString_base64 (map (\<lambda>c. of_char c) ''foob'') = ''Zm9vYg==''"
  "toString_base64 (map (\<lambda>c. of_char c) ''fooba'') = ''Zm9vYmE=''"
  "toString_base64 (map (\<lambda>c. of_char c) ''foobar'') = ''Zm9vYmFy''"
  by code_simp+

lemma set_checksum_field:
  assumes "alg \<in> set checksum_algorithms" and "no_checksum_fields ps"
  shows "checksum_field name (set_checksum alg v (ps\<lparr>ChecksumAlgorithm := Some alg\<rparr>)) =
           (if name = ''Checksum'' @ alg then Some v else None) \<and>
         ChecksumAlgorithm (set_checksum alg v (ps\<lparr>ChecksumAlgorithm := Some alg\<rparr>)) = Some alg"
  using assms
  by (auto simp add: checksum_algorithms_def set_checksum_def checksum_field_def no_checksum_fields_def)

lemma file_params_handling:
  "file_params w inp st = Inr ps \<Longrightarrow>
     \<exists>ps0. no_checksum_fields ps0 \<and> checksum_handling inp ps0 = Inr ps"
proof (cases "readFileSync st (filePath inp)")
  case (Inl e)
  assume "file_params w inp st = Inr ps"
  with Inl show ?thesis by (simp add: file_params_def)
next
  case (Inr body)
  assume "file_params w inp st = Inr ps"
  with Inr show ?thesis
    unfolding file_params_def
    apply (simp only: sum.case)
    apply (rule exI, rule conjI [rotated], assumption)
    apply (simp add: no_checksum_fields_def)
    done
qed

text \<open>
  C8. With one of the five algorithms and a checksum value that is not empty, the
  parameters of the upload of the file carry the algorithm, and under the field named
  \<open>Checksum\<close> followed by the algorithm they carry the value: re-encoded in base64
  from the bytes that it writes in hexadecimal when it is made of hexadecimal digits
  only, and unchanged otherwise. No other checksum field is set.
\<close>

theorem checksum_value_attached:
  assumes "checksumAlgorithm inp \<in> set checksum_algorithms" and "checksum inp \<noteq> []"
    and "file_params w inp st = Inr ps"
  shows "ChecksumAlgorithm ps = Some (checksumAlgorithm inp) \<and>
         checksum_field (''Checksum'' @ checksumAlgorithm inp) ps =
           Some (if hex_test (checksum inp) then toString_base64 (hex_bytes (checksum inp))
                 else checksum inp) \<and>
         (\<forall>name. name \<noteq> ''Checksum'' @ checksumAlgorithm inp \<longrightarrow> checksum_field name ps = None)"
proof -
  from assms(1) have ne: "checksumAlgorithm inp \<noteq> []"
    by (auto simp add: checksum_algorithms_def)
  from file_params_handling [OF assms(3)] obtain ps0 where ps0: "no_checksum_fields ps0"
    and h: "checksum_handling inp ps0 = Inr ps"
    by blast
  from h ne assms(1,2)
  have ps: "ps = set_checksum (checksumAlgorithm inp) (checksumValue (checksum inp))
                   (ps0\<lparr>ChecksumAlgorithm := Some (checksumAlgorithm inp)\<rparr>)"
    by (simp add: checksum_handling_def Let_def)
  have v: "checksumValue (checksum inp) =
      (if hex_test (checksum inp) then toString_base64 (hex_bytes (checksum inp)) else checksum inp)"
    by (simp add: checksumValue_def hex_test_def Buffer_from_hex_bytes)
  from set_checksum_field [OF assms(1) ps0] ps v show ?thesis by simp
qed

theorem checksum_value_attached_witness:
  "checksumAlgorithm (example_input\<lparr>checksumAlgorithm := ''SHA256'', checksum := ''deadbeef''\<rparr>)
     \<in> set checksum_algorithms \<and>
   (\<exists>ps. file_params example_world
            (example_input\<lparr>checksumAlgorithm := ''SHA256'', checksum := ''deadbeef''\<rparr>)
            example_state = Inr ps \<and>
          ChecksumAlgorithm ps = Some ''SHA256'' \<and>
          checksum_field ''ChecksumSHA256'' ps = Some ''3q2+7w=='' \<and>
          ChecksumSHA256 ps = Some ''3q2+7w=='')"
proof -
  let ?inp = "example_input\<lparr>checksumAlgorithm := ''SHA256'', checksum := ''deadbeef''\<rparr>"
  have h1: "checksumAlgorithm ?inp \<in> set checksum_algorithms" by code_simp
  have h2: "checksum ?inp \<noteq> []" by code_simp
  obtain ps where h3: "file_params example_world ?inp example_state = Inr ps"
    by (cases "file_params example_world ?inp example_state")
       (simp_all add: file_params_def readFileSync_def example_state_def example_input_def
          checksum_handling_def checksum_algorithms_def)
  have v: "(if hex_test (checksum ?inp) then toString_base64 (hex_bytes (checksum ?inp))
            else checksum ?inp) = ''3q2+7w==''"
    by code_simp
  have n: "''Checksum'' @ checksumAlgorithm ?inp = ''ChecksumSHA256''" by code_simp
  from checksum_value_attached [OF h1 h2 h3] 
  have "ChecksumAlgorithm ps = Some ''SHA256'' \<and> checksum_field ''ChecksumSHA256'' ps = Some ''3q2+7w==''"
    unfolding v n by (simp add: example_input_def)
  then show ?thesis using h1 h3 by (auto simp add: checksum_field_def)
qed

subsection \<open>The bucket root\<close>

text \<open>
  C9. A bucket root of exactly \<open>/\<close> is normalised to the empty string, so the key of
  the object is the destination directory and the name of the file, with no root before
  them. The default \<open>artifacts/\<close> is what the empty input gives; an input that is not
  empty is only stripped of a leading slash and, unless that leaves it empty or ending
  with a slash, ended by one.
\<close>

theorem bucketRoot_slash_is_empty:
  "bucketRoot_of ''/'' = [] \<and>
   bucketRoot_of [] = ''artifacts/'' \<and>
   bucketRoot_of (c # cs) =
     (let b1 = (if c = CHR ''/'' then cs else c # cs)
      in if b1 \<noteq> [] \<and> last b1 \<noteq> CHR ''/'' then b1 @ ''/'' else b1) \<and>
   fileKey_of w (inp\<lparr>bucketRoot := ''/''\<rparr>) =
     destinationDir_of (random w) (destinationDir inp) @ basename (filePath inp)"
  by (auto simp add: bucketRoot_of_def startsWith_slash_def endsWith_slash_def fileKey_of_def
        Let_def last_rev split: list.splits)

subsection \<open>A checksum without an algorithm\<close>

lemma checksum_upd_simps:
  "fileKey_of w (inp\<lparr>checksum := v\<rparr>) = fileKey_of w inp"
  "qrKey_of w (inp\<lparr>checksum := v\<rparr>) = qrKey_of w inp"
  "acl_of (inp\<lparr>checksum := v\<rparr>) = acl_of inp"
  "s3_host (inp\<lparr>checksum := v\<rparr>) = s3_host inp"
  "public_url (inp\<lparr>checksum := v\<rparr>) k = public_url inp k"
  "rewrite (inp\<lparr>checksum := v\<rparr>) b d u = rewrite inp b d u"
  "qr_params w (inp\<lparr>checksum := v\<rparr>) body = qr_params w inp body"
  by (simp_all add: fileKey_of_def qrKey_of_def acl_of_def s3_host_def public_url_def
        rewrite_def qr_params_def)

lemma checksum_handling_empty:
  "checksumAlgorithm inp = [] \<Longrightarrow> checksum_handling (inp\<lparr>checksum := v\<rparr>) ps = Inr ps"
  by (simp add: checksum_handling_def)

lemma file_params_checksum_upd:
  "checksumAlgorithm inp = [] \<Longrightarrow> file_params w (inp\<lparr>checksum := v\<rparr>) st = file_params w inp st"
  unfolding file_params_def
  by (simp add: checksum_upd_simps checksum_handling_def cong: sum.case_cong)

lemma fileUrl_step_checksum_upd:
  "fileUrl_step w (inp\<lparr>checksum := v\<rparr>) e st = fileUrl_step w inp e st"
  unfolding fileUrl_step_def
  by (simp add: checksum_upd_simps cong: option.case_cong sum.case_cong prod.case_cong if_cong)

lemma qr_step_checksum_upd:
  "qr_step w (inp\<lparr>checksum := v\<rparr>) q u st = qr_step w inp q u st"
  unfolding qr_step_def
  by (simp add: checksum_upd_simps cong: option.case_cong sum.case_cong prod.case_cong)

lemma run_checksum_upd: "checksumAlgorithm inp = [] \<Longrightarrow> run w (inp\<lparr>checksum := v\<rparr>) st = run w inp st"
  unfolding run_def
  by (simp add: file_params_checksum_upd fileUrl_step_checksum_upd qr_step_checksum_upd
        cong: option.case_cong sum.case_cong prod.case_cong if_cong)

lemma file_params_no_checksum:
  "checksumAlgorithm inp = [] \<Longrightarrow> file_params w inp st = Inr ps \<Longrightarrow>
     ChecksumAlgorithm ps = None \<and> ChecksumCRC32 ps = None \<and> ChecksumCRC32C ps = None \<and>
     ChecksumCRC64NVME ps = None \<and> ChecksumSHA1 ps = None \<and> ChecksumSHA256 ps = None"
  by (auto simp add: file_params_def checksum_handling_def split: sum.splits)

lemma qr_params_no_checksum: "no_checksum_fields (qr_params w inp body)"
  by (simp add: no_checksum_fields_def qr_params_def)

text \<open>
  C10. With an empty checksum algorithm the checksum value plays no part: the run is the
  same whatever the value is (nothing checks it), and no upload of the run carries a
  checksum algorithm or a checksum value.
\<close>

theorem empty_algorithm_ignores_checksum:
  assumes "checksumAlgorithm inp = []"
  shows "run w (inp\<lparr>checksum := v\<rparr>) st = run w inp st \<and>
         (\<forall>ps. PutObject ps \<in> set (calls_of_run w (inp\<lparr>checksum := v\<rparr>) st)
                \<longrightarrow> no_checksum_fields ps)"
proof -
  have eq: "run w (inp\<lparr>checksum := v\<rparr>) st = run w inp st"
    using assms by (rule run_checksum_upd)
  from run_calls [of w inp st] obtain ds where d: "calls (snd (run w inp st)) = calls st @ ds"
    and sh: "ds = [] \<or>
      (\<exists>ps rest. file_params w inp st = Inr ps \<and> ds = PutObject ps # rest \<and>
         (\<forall>p. PutObject p \<in> set rest \<longrightarrow> (\<exists>body. p = qr_params w inp body)))"
    by blast
  have cr: "calls_of_run w (inp\<lparr>checksum := v\<rparr>) st = ds"
    using d eq by (simp add: calls_of_run_def)
  have "\<forall>ps. PutObject ps \<in> set ds \<longrightarrow> no_checksum_fields ps"
  proof (intro allI impI)
    fix ps assume m: "PutObject ps \<in> set ds"
    with sh obtain ps0 rest where fp: "file_params w inp st = Inr ps0"
      and ds: "ds = PutObject ps0 # rest"
      and r: "\<forall>p. PutObject p \<in> set rest \<longrightarrow> (\<exists>body. p = qr_params w inp body)"
      by auto
    from m ds consider "ps = ps0" | "PutObject ps \<in> set rest" by auto
    then show "no_checksum_fields ps"
    proof cases
      case 1
      with file_params_no_checksum [OF assms fp] show ?thesis by (simp add: no_checksum_fields_def)
    next
      case 2
      with r obtain body where "ps = qr_params w inp body" by blast
      then show ?thesis by (simp add: qr_params_no_checksum)
    qed
  qed
  with eq cr show ?thesis by simp
qed

theorem empty_algorithm_ignores_checksum_witness:
  "checksumAlgorithm example_input = [] \<and>
   run example_world (example_input\<lparr>checksum := ''not a checksum''\<rparr>) example_state =
     run example_world example_input example_state \<and>
   length (calls_of_run example_world (example_input\<lparr>checksum := ''not a checksum''\<rparr>) example_state) = 2 \<and>
   list_all (\<lambda>c. case c of PutObject ps \<Rightarrow> no_checksum_fields ps | _ \<Rightarrow> True)
     (calls_of_run example_world (example_input\<lparr>checksum := ''not a checksum''\<rparr>) example_state)"
proof -
  have h: "checksumAlgorithm example_input = []" by code_simp
  have l: "length (calls_of_run example_world (example_input\<lparr>checksum := ''not a checksum''\<rparr>) example_state) = 2"
    by code_simp
  from empty_algorithm_ignores_checksum [OF h, of example_world "''not a checksum''" example_state] h l
  show ?thesis by (auto simp add: list_all_iff split: s3_call.splits)
qed

end
